theory Spec2Isabelle
  imports Complex_Main
begin

section \<open>Python values\<close>

text \<open>
  The operation records handled by \<open>IonQAPIservice.validate_circuit\<close> are loosely typed
  Python dictionaries, as decoded from JSON. A dictionary is an association list in
  insertion order (lookup takes the first binding of a key); a Python float is the
  rational number it denotes.
\<close>

datatype pyval =
    PNone
  | PBool bool
  | PInt int
  | PFloat rat
  | PStr string
  | PList "pyval list"
  | PDict "(string \<times> pyval) list"

type_synonym pydict = "(string \<times> pyval) list"

definition has_key :: "('k \<times> 'v) list \<Rightarrow> 'k \<Rightarrow> bool" where
  "has_key d k = (map_of d k \<noteq> None)"

fun is_list :: "pyval \<Rightarrow> bool" where
  "is_list (PList xs) = True"
| "is_list v = False"

text \<open>\<open>v if isinstance(v, list) else [v]\<close>.\<close>

fun as_list :: "pyval \<Rightarrow> pyval list" where
  "as_list (PList xs) = xs"
| "as_list v = [v]"

section \<open>Gate taxonomy\<close>

text \<open>The translation tables set up in \<open>__init__\<close>, as \<open>(qiskit gate, IonQ gate)\<close> pairs.\<close>

definition gates_1q :: "(string \<times> string) list" where
  "gates_1q =
    [(''h'', ''h''), (''i'', ''id''), (''id'', ''id''), (''p'', ''z''), (''rx'', ''rx''),
     (''ry'', ''ry''), (''rz'', ''rz''), (''not'', ''x''), (''s'', ''s''), (''sdg'', ''si''),
     (''sx'', ''v''), (''sxdg'', ''vi''), (''t'', ''t''), (''tdg'', ''ti''), (''x'', ''x''),
     (''y'', ''y''), (''z'', ''z'')]"

definition gates_2q_ctl :: "(string \<times> string) list" where
  "gates_2q_ctl =
    [(''ch'', ''h''), (''cnot'', ''x''), (''cp'', ''z''), (''crx'', ''rx''), (''cry'', ''ry''),
     (''crz'', ''rz''), (''cx'', ''x''), (''cy'', ''y''), (''cz'', ''z''), (''csx'', ''v''),
     (''cv'', ''v''), (''csxdg'', ''vi''), (''cvi'', ''vi'')]"

definition gates_2q_noctl :: "(string \<times> string) list" where
  "gates_2q_noctl =
    [(''rxx'', ''xx''), (''ryy'', ''yy''), (''rzz'', ''zz''), (''swap'', ''swap'')]"

definition gates_mq :: "(string \<times> string) list" where
  "gates_mq =
    [(''mcp'', ''z''), (''mcphase'', ''z''), (''mct'', ''t''), (''ccx'', ''x''), (''c3x'', ''x''),
     (''c4x'', ''x''), (''mcx'', ''x''), (''mcx_gray'', ''x''), (''toffoli'', ''x'')]"

text \<open>
  \<open>math.pi\<close> is the double nearest to the circle constant; halving a double is exact, and
  \<open>7*math.pi\<close> is rounded once. The two parameter values of the \<open>siswap\<close> macro are
  therefore these rationals.
\<close>

definition pi_half :: rat where
  "pi_half = 884279719003555 / 562949953421312"

definition seven_pi_half :: rat where
  "seven_pi_half = 6189958033024885 / 562949953421312"

text \<open>
  A macro is \<open>[targets, controls, parameters, body]\<close>; a body step is
  \<open>(gate, target positions, control positions, parameters)\<close>, the positions indexing the
  list \<open>targets + controls\<close> of the entry being expanded.
\<close>

type_synonym macro_step = "string \<times> nat list \<times> nat list \<times> rat list"
type_synonym macro = "nat list \<times> nat list \<times> rat list \<times> macro_step list"

definition gates_special :: "(string \<times> macro) list" where
  "gates_special =
    [(''sswap'', ([0, 1], [], [],
        [(''x'', [1], [0], []), (''v'', [0], [1], []), (''x'', [1], [0], [])])),
     (''iswap'', ([0, 1], [], [],
        [(''s'', [0], [], []), (''s'', [1], [], []), (''h'', [0], [], []), (''x'', [1], [0], []),
         (''x'', [0], [1], []), (''h'', [1], [], [])])),
     (''siswap'', ([0, 1], [], [],
        [(''v'', [0], [], []), (''v'', [1], [], []), (''rz'', [0], [], [pi_half]),
         (''x'', [1], [0], []), (''v'', [0], [], []), (''v'', [1], [], []),
         (''rz'', [0], [], [seven_pi_half]), (''rz'', [1], [], [seven_pi_half]),
         (''v'', [0], [], []), (''rz'', [0], [], [pi_half]), (''x'', [1], [0], []),
         (''v'', [0], [], [])])),
     (''cswap'', ([0, 1], [0], [],
        [(''x'', [1], [0], []), (''x'', [0], [1, 2], []), (''x'', [1], [0], [])]))]"

text \<open>\<open>g in table.values()\<close> and \<open>g in table.keys()\<close> compare by equality; only a string
  can equal a table entry.\<close>

fun in_values :: "(string \<times> string) list \<Rightarrow> pyval \<Rightarrow> bool" where
  "in_values tab (PStr g) = (g \<in> set (map snd tab))"
| "in_values tab v = False"

fun in_keys :: "(string \<times> 'v) list \<Rightarrow> pyval \<Rightarrow> bool" where
  "in_keys tab (PStr g) = has_key tab g"
| "in_keys tab v = False"

text \<open>\<open>table[g]\<close> for a gate already known to be a key.\<close>

fun remap :: "(string \<times> string) list \<Rightarrow> pyval \<Rightarrow> pyval" where
  "remap tab (PStr g) = (case map_of tab g of Some c \<Rightarrow> PStr c | None \<Rightarrow> PStr g)"
| "remap tab v = v"

section \<open>The circuit validator\<close>

datatype verror =
    NotAList
  | EntryNotDict nat
  | NoTarget nat pyval
  | SpecialArity nat pyval
  | NotTwoTargetGate nat pyval
  | NotMultiQubitGate nat pyval
  | NoTargetControl nat pyval
  | NotOneQubitGate nat pyval
  | NoGates
  | TypeError
  | IndexError

text \<open>Step 1 of the loop body: \<open>tgt_vals\<close> with the update flag, \<open>None\<close> when the entry has
  neither \<open>target\<close> nor \<open>targets\<close>.\<close>

definition read_targets :: "pydict \<Rightarrow> (pyval list \<times> bool) option" where
  "read_targets entry =
    (case map_of entry ''target'' of
       Some v \<Rightarrow> Some (as_list v, is_list v)
     | None \<Rightarrow>
        (case map_of entry ''targets'' of
           Some v \<Rightarrow> Some (as_list v, \<not> is_list v)
         | None \<Rightarrow> None))"

definition read_controls :: "pydict \<Rightarrow> pyval list \<times> bool" where
  "read_controls entry =
    (case map_of entry ''control'' of
       Some v \<Rightarrow> (as_list v, is_list v)
     | None \<Rightarrow>
        (case map_of entry ''controls'' of
           Some v \<Rightarrow> (as_list v, \<not> is_list v)
         | None \<Rightarrow> ([], False)))"

text \<open>The parameter values are read but never used; only the update flag matters.\<close>

definition read_parameters :: "pydict \<Rightarrow> bool" where
  "read_parameters entry =
    (case map_of entry ''parameters'' of Some v \<Rightarrow> \<not> is_list v | None \<Rightarrow> False)"

definition read_rotations :: "pydict \<Rightarrow> bool" where
  "read_rotations entry =
    (case map_of entry ''rotations'' of Some v \<Rightarrow> \<not> is_list v | None \<Rightarrow> False)"

text \<open>\<open>[qbits[i] for i in t]\<close>; \<open>None\<close> is Python's IndexError.\<close>

fun py_items :: "'a list \<Rightarrow> nat list \<Rightarrow> 'a list option" where
  "py_items qbits [] = Some []"
| "py_items qbits (i # ixs) =
     (if i < length qbits
      then (case py_items qbits ixs of Some r \<Rightarrow> Some (qbits ! i # r) | None \<Rightarrow> None)
      else None)"

text \<open>One body step of a macro: the record \<open>circ\<close> appended to \<open>valid_circ\<close>.\<close>

definition expand_step :: "pyval list \<Rightarrow> macro_step \<Rightarrow> pydict option" where
  "expand_step qbits st =
    (case st of (g, t, c, p) \<Rightarrow>
      (case py_items qbits t of
         None \<Rightarrow> None
       | Some myt \<Rightarrow>
          (case (if c \<noteq> [] then py_items qbits c else Some []) of
             None \<Rightarrow> None
           | Some myc \<Rightarrow>
              Some ([(''gate'', PStr g), (''targets'', PList myt)]
                    @ (if c \<noteq> [] then [(''controls'', PList myc)] else [])
                    @ (if p \<noteq> [] then [(''parameters'', PList (map PFloat p))] else [])))))"

fun expand_special :: "pyval list \<Rightarrow> macro_step list \<Rightarrow> pyval list option" where
  "expand_special qbits [] = Some []"
| "expand_special qbits (st # sts) =
     (case expand_step qbits st of
        None \<Rightarrow> None
      | Some circ \<Rightarrow>
         (case expand_special qbits sts of
            None \<Rightarrow> None
          | Some r \<Rightarrow> Some (PDict circ # r)))"

text \<open>\<open>mygate in self.gates_special\<close> hashes the gate: a list or a dictionary raises
  TypeError.\<close>

fun special_lookup :: "pyval \<Rightarrow> verror + macro option" where
  "special_lookup (PStr g) = Inr (map_of gates_special g)"
| "special_lookup (PList xs) = Inl TypeError"
| "special_lookup (PDict d) = Inl TypeError"
| "special_lookup v = Inr None"

text \<open>
  The reclassification by arity (the \<open>if/elif\<close> chain on \<open>len(tgt_vals)\<close> and
  \<open>len(ctl_vals)\<close>): the result is the gate name, the targets, the controls and whether
  the entry was changed.
\<close>

definition classify ::
  "nat \<Rightarrow> pyval \<Rightarrow> pyval list \<Rightarrow> pyval list \<Rightarrow> verror + (pyval \<times> pyval list \<times> pyval list \<times> bool)" where
  "classify j mygate tgt_vals ctl_vals =
    (if length tgt_vals > 1 then
       (if \<not> in_values gates_2q_noctl mygate then
          (if in_keys gates_2q_noctl mygate
           then Inr (remap gates_2q_noctl mygate, tgt_vals, ctl_vals, True)
           else Inl (NotTwoTargetGate j mygate))
        else Inr (mygate, tgt_vals, ctl_vals, False))
     else if length ctl_vals > 1 then
       (if \<not> in_values gates_mq mygate then
          (if in_keys gates_mq mygate
           then Inr (remap gates_mq mygate, tgt_vals, ctl_vals, True)
           else Inl (NotMultiQubitGate j mygate))
        else Inr (mygate, tgt_vals, ctl_vals, False))
     else if length ctl_vals = 1 then
       (if \<not> in_values gates_2q_ctl mygate then
          (if in_keys gates_2q_ctl mygate
           then Inr (remap gates_2q_ctl mygate, tgt_vals, ctl_vals, True)
           else if in_values gates_2q_noctl mygate \<or> in_keys gates_2q_noctl mygate
           then Inr ((if \<not> in_values gates_2q_noctl mygate
                      then remap gates_2q_noctl mygate else mygate),
                     tgt_vals @ ctl_vals, [], True)
           else Inl (NoTargetControl j mygate))
        else Inr (mygate, tgt_vals, ctl_vals, False))
     else
       (if \<not> in_values gates_1q mygate then
          (if in_keys gates_1q mygate
           then Inr (remap gates_1q mygate, tgt_vals, ctl_vals, True)
           else Inl (NotOneQubitGate j mygate))
        else Inr (mygate, tgt_vals, ctl_vals, False)))"

text \<open>
  The body of the loop over \<open>enumerate(circuit)\<close> for entry \<open>j\<close>: the records appended to
  \<open>valid_circ\<close> and whether \<open>j\<close> is appended to \<open>updates\<close>. An entry without \<open>gate\<close> is
  skipped.

  In the branch that turns the control into a second target, \<open>tgt_vals.extend(ctl_vals)\<close>
  also changes the list inside the caller's entry when \<open>tgt_vals\<close> is that list. The
  record appended in that branch is a new one, so the returned circuit is what is computed
  here as long as the entries of the input are separate objects, as they are when the
  circuit has been decoded from JSON or built by \<open>translate_qasm\<close>.
\<close>

definition validate_entry :: "nat \<Rightarrow> pyval \<Rightarrow> verror + (pyval list \<times> bool)" where
  "validate_entry j e =
    (case e of
       PDict entry \<Rightarrow>
        (case map_of entry ''gate'' of
           None \<Rightarrow> Inr ([], False)
         | Some mygate \<Rightarrow>
            (case read_targets entry of
               None \<Rightarrow> Inl (NoTarget j mygate)
             | Some (tgt_vals, f1) \<Rightarrow>
                (case read_controls entry of (ctl_vals, f2) \<Rightarrow>
                  (let flg = (f1 \<or> f2 \<or> read_parameters entry \<or> read_rotations entry) in
                   (case special_lookup mygate of
                      Inl err \<Rightarrow> Inl err
                    | Inr (Some (qtgt, qctl, qpar, qgates)) \<Rightarrow>
                       (if length qtgt \<noteq> length tgt_vals \<or> length qctl \<noteq> length ctl_vals
                        then Inl (SpecialArity j mygate)
                        else (case expand_special (tgt_vals @ ctl_vals) qgates of
                                None \<Rightarrow> Inl IndexError
                              | Some circs \<Rightarrow> Inr (circs, True)))
                    | Inr None \<Rightarrow>
                       (case classify j mygate tgt_vals ctl_vals of
                          Inl err \<Rightarrow> Inl err
                        | Inr (g, tv, cv, f3) \<Rightarrow>
                           (if flg \<or> f3
                            then Inr ([PDict ([(''gate'', g), (''targets'', PList tv)]
                                        @ (if cv \<noteq> [] then [(''controls'', PList cv)] else []))],
                                      True)
                            else Inr ([e], False))))))))
     | _ \<Rightarrow> Inl (EntryNotDict j))"

fun validate_loop ::
  "nat \<Rightarrow> pyval list \<Rightarrow> pyval list \<Rightarrow> nat list \<Rightarrow> verror + (pyval list \<times> nat list)" where
  "validate_loop j [] valid_circ updates = Inr (valid_circ, updates)"
| "validate_loop j (e # es) valid_circ updates =
     (case validate_entry j e of
        Inl err \<Rightarrow> Inl err
      | Inr (new, upd) \<Rightarrow>
         validate_loop (Suc j) es (valid_circ @ new) (if upd then updates @ [j] else updates))"

text \<open>The result \<open>Inr (c, u)\<close> is \<open>{'circuit': c, 'updated_entries': u}\<close>; \<open>Inl\<close> is
  \<open>{'error': ...}\<close> or, for \<open>TypeError\<close>, a raised exception.\<close>

definition validate_circuit :: "pyval \<Rightarrow> verror + (pyval list \<times> nat list)" where
  "validate_circuit circuit =
    (case circuit of
       PList entries \<Rightarrow>
        (case validate_loop 0 entries [] [] of
           Inl err \<Rightarrow> Inl err
         | Inr (valid_circ, updates) \<Rightarrow>
            (if valid_circ = [] then Inl NoGates else Inr (valid_circ, updates)))
     | _ \<Rightarrow> Inl NotAList)"

subsection \<open>Notions used to state the validator's properties\<close>

text \<open>An entry whose \<open>target\<close>/\<open>targets\<close> or \<open>control\<close>/\<open>controls\<close> field has the shape
  of the other spelling: a list under the singular key, a scalar under the plural key.\<close>

definition shape_changed :: "pydict \<Rightarrow> bool" where
  "shape_changed entry =
    ((case map_of entry ''target'' of
        Some v \<Rightarrow> is_list v
      | None \<Rightarrow> (case map_of entry ''targets'' of Some v \<Rightarrow> \<not> is_list v | None \<Rightarrow> False))
     \<or>
     (case map_of entry ''control'' of
        Some v \<Rightarrow> is_list v
      | None \<Rightarrow> (case map_of entry ''controls'' of Some v \<Rightarrow> \<not> is_list v | None \<Rightarrow> False)))"

text \<open>The scenario of the shape correction: \<open>{"gate":"x","target":[1],"control":0}\<close> and
  the record it validates to.\<close>

definition x_entry :: pyval where
  "x_entry = PDict [(''gate'', PStr ''x''), (''target'', PList [PInt 1]), (''control'', PInt 0)]"

definition x_entry_validated :: pyval where
  "x_entry_validated =
     PDict [(''gate'', PStr ''x''), (''targets'', PList [PInt 1]), (''controls'', PList [PInt 0])]"

text \<open>A rotation whose target is written as a list under the singular key:
  \<open>{"gate":"rz","target":[0],"rotation":0.5}\<close>.\<close>

definition rz_entry :: pydict where
  "rz_entry = [(''gate'', PStr ''rz''), (''target'', PList [PInt 0]), (''rotation'', PFloat (1 / 2))]"

text \<open>
  The class of gates that the validator's \<open>if/elif\<close> chain selects from the number of
  targets and the number of controls: two-qubit-uncontrolled for more than one target,
  otherwise multi-control for more than one control, two-qubit-controlled for exactly one
  control, single-qubit for none. The counts determine one class.
\<close>

definition gate_class :: "nat \<Rightarrow> nat \<Rightarrow> (string \<times> string) list" where
  "gate_class nt nc =
    (if nt > 1 then gates_2q_noctl
     else if nc > 1 then gates_mq
     else if nc = 1 then gates_2q_ctl
     else gates_1q)"

text \<open>The targets and the controls of a record, as lists, whichever spelling it uses.\<close>

definition entry_targets :: "pydict \<Rightarrow> pyval list" where
  "entry_targets entry =
    (case map_of entry ''target'' of
       Some v \<Rightarrow> as_list v
     | None \<Rightarrow> (case map_of entry ''targets'' of Some v \<Rightarrow> as_list v | None \<Rightarrow> []))"

definition entry_controls :: "pydict \<Rightarrow> pyval list" where
  "entry_controls entry =
    (case map_of entry ''control'' of
       Some v \<Rightarrow> as_list v
     | None \<Rightarrow> (case map_of entry ''controls'' of Some v \<Rightarrow> as_list v | None \<Rightarrow> []))"

text \<open>
  A well-formed record: a scalar under \<open>target\<close> or a list under \<open>targets\<close>, the same for
  the controls if there are any, and a list under \<open>parameters\<close> and \<open>rotations\<close> if present.
\<close>

definition well_shaped :: "pydict \<Rightarrow> bool" where
  "well_shaped entry =
    ((case map_of entry ''target'' of
        Some v \<Rightarrow> \<not> is_list v
      | None \<Rightarrow> (case map_of entry ''targets'' of Some v \<Rightarrow> is_list v | None \<Rightarrow> False))
     \<and> (case map_of entry ''control'' of
           Some v \<Rightarrow> \<not> is_list v
         | None \<Rightarrow> (case map_of entry ''controls'' of Some v \<Rightarrow> is_list v | None \<Rightarrow> True))
     \<and> (case map_of entry ''parameters'' of Some v \<Rightarrow> is_list v | None \<Rightarrow> True)
     \<and> (case map_of entry ''rotations'' of Some v \<Rightarrow> is_list v | None \<Rightarrow> True))"

text \<open>A well-classified record: its gate is a canonical (IonQ) name of the class that its
  counts select.\<close>

definition well_classified :: "pydict \<Rightarrow> bool" where
  "well_classified entry =
    (case map_of entry ''gate'' of
       Some g \<Rightarrow>
         in_values (gate_class (length (entry_targets entry)) (length (entry_controls entry))) g
     | None \<Rightarrow> False)"

definition canonical_op :: "pyval \<Rightarrow> bool" where
  "canonical_op v = (case v of PDict entry \<Rightarrow> well_shaped entry \<and> well_classified entry | _ \<Rightarrow> False)"

text \<open>Every entry that has a gate names at least one target.\<close>

definition names_target :: "pyval \<Rightarrow> bool" where
  "names_target v =
    (case v of
       PDict entry \<Rightarrow> has_key entry ''gate'' \<longrightarrow> entry_targets entry \<noteq> []
     | _ \<Rightarrow> True)"

text \<open>The records of the scenarios: \<open>{"gate":"h","target":0}\<close>, a swap on three targets,
  and a swap with an empty target list and one control, with the record the latter is
  rewritten to.\<close>

definition h_entry :: pyval where
  "h_entry = PDict [(''gate'', PStr ''h''), (''target'', PInt 0)]"

definition swap3_entry :: pyval where
  "swap3_entry = PDict [(''gate'', PStr ''swap''), (''targets'', PList [PInt 0, PInt 1, PInt 2])]"

definition swap0_entry :: pyval where
  "swap0_entry = PDict [(''gate'', PStr ''swap''), (''targets'', PList []), (''control'', PInt 1)]"

definition swap0_validated :: pyval where
  "swap0_validated = PDict [(''gate'', PStr ''swap''), (''targets'', PList [PInt 1])]"

text \<open>A body step of a macro names a canonical gate of the class its position lists select.\<close>

definition step_ok :: "macro_step \<Rightarrow> bool" where
  "step_ok st = (case st of (g, t, c, p) \<Rightarrow>
     in_values (gate_class (length t) (length c)) (PStr g))"


section \<open>Job identifiers\<close>

text \<open>
  \<open>validate_jobid_hash\<close> takes a string or a dictionary with an \<open>id\<close> entry. A Python string
  is modelled as a list of characters with code points below 256.
\<close>

text \<open>The characters that \<open>str.strip()\<close> removes (\<open>str.isspace\<close>) among those code points.\<close>

definition py_isspace :: "char \<Rightarrow> bool" where
  "py_isspace ch = ((of_char ch :: nat) \<in> {9, 10, 11, 12, 13, 28, 29, 30, 31, 32, 133, 160})"

definition strip :: "string \<Rightarrow> string" where
  "strip s = rev (dropWhile py_isspace (rev (dropWhile py_isspace s)))"

text \<open>\<open>s.split(sep)\<close> for a one-character separator: the result is never empty, so the
  last case is not reached.\<close>

fun split_on :: "char \<Rightarrow> string \<Rightarrow> string list" where
  "split_on sep [] = [[]]"
| "split_on sep (x # xs) =
     (if x = sep then [] # split_on sep xs
      else (case split_on sep xs of
              g # gs \<Rightarrow> (x # g) # gs
            | [] \<Rightarrow> [[x]]))"

definition hex_chars :: string where
  "hex_chars = ''1234567890abcdef''"

definition hashlen :: "nat list" where
  "hashlen = [8, 4, 4, 4, 12]"

datatype jobid_error =
    NoIdKey pyval
  | NotAString pyval
  | NotValid pyval
  | WrongLength string string
  | WrongHexChar string string
  | JobIdTypeError
  | JobIdAttributeError

text \<open>The loop over \<open>zip(hashlen, vals)\<close>: the first group of the wrong length or with a
  character outside \<open>hex_chars\<close> ends the check.\<close>

fun check_groups :: "string \<Rightarrow> (nat \<times> string) list \<Rightarrow> jobid_error + unit" where
  "check_groups ident [] = Inr ()"
| "check_groups ident ((n, val) # rest) =
     (if length val \<noteq> n then Inl (WrongLength ident val)
      else if \<exists>ch\<in>set val. ch \<notin> set hex_chars then Inl (WrongHexChar ident val)
      else check_groups ident rest)"

text \<open>The checks on \<open>id\<close> once it is known to be a string.\<close>

definition check_id :: "string \<Rightarrow> jobid_error + string" where
  "check_id ident =
    (if length ident \<noteq> 36 \<or> count_list ident (CHR ''-'') \<noteq> 4
     then Inl (NotValid (PStr ident))
     else (case check_groups ident (zip hashlen (split_on (CHR ''-'') ident)) of
             Inl err \<Rightarrow> Inl err
           | Inr u \<Rightarrow> Inr ident))"

text \<open>
  A dictionary's \<open>id\<close> is used as it is, whatever its type: \<open>len\<close> raises TypeError on
  a number, a boolean or \<open>None\<close>; a list or a dictionary that gets past the length test
  has no \<open>split\<close> (a dictionary no \<open>count\<close>) and raises AttributeError. A string argument
  is stripped first.
\<close>

fun check_dict_id :: "pyval \<Rightarrow> jobid_error + string" where
  "check_dict_id (PStr ident) = check_id ident"
| "check_dict_id (PList xs) =
     (if length xs \<noteq> 36 \<or> count_list xs (PStr ''-'') \<noteq> 4
      then Inl (NotValid (PList xs)) else Inl JobIdAttributeError)"
| "check_dict_id (PDict d) =
     (if length d \<noteq> 36 then Inl (NotValid (PDict d)) else Inl JobIdAttributeError)"
| "check_dict_id v = Inl JobIdTypeError"

fun validate_jobid_hash :: "pyval \<Rightarrow> jobid_error + string" where
  "validate_jobid_hash (PDict jobid) =
     (case map_of jobid ''id'' of
        None \<Rightarrow> Inl (NoIdKey (PDict jobid))
      | Some ident \<Rightarrow> check_dict_id ident)"
| "validate_jobid_hash (PStr jobid) = check_id (strip jobid)"
| "validate_jobid_hash v = Inl (NotAString v)"

subsection \<open>The identifier format\<close>

text \<open>
  Five groups of 8, 4, 4, 4 and 12 characters, each character one of \<open>0\<close>-\<open>9\<close> and
  \<open>a\<close>-\<open>f\<close>, joined by hyphens. Such a string has 36 characters and exactly 4 hyphens.
\<close>

definition uid_shape :: "string \<Rightarrow> bool" where
  "uid_shape t =
    (\<exists>g1 g2 g3 g4 g5.
       t = g1 @ ''-'' @ g2 @ ''-'' @ g3 @ ''-'' @ g4 @ ''-'' @ g5
       \<and> length g1 = 8 \<and> length g2 = 4 \<and> length g3 = 4 \<and> length g4 = 4 \<and> length g5 = 12
       \<and> (\<forall>ch\<in>set (g1 @ g2 @ g3 @ g4 @ g5). ch \<in> set ''0123456789abcdef''))"

text \<open>An error that is returned as \<open>{'error': message}\<close>, as opposed to a raised exception.\<close>

fun is_error_message :: "jobid_error \<Rightarrow> bool" where
  "is_error_message JobIdTypeError = False"
| "is_error_message JobIdAttributeError = False"
| "is_error_message e = True"

definition uid_example :: string where
  "uid_example = ''0a1b2c3d-4e5f-6789-abcd-ef0123456789''"

text \<open>The inverse of \<open>split_on\<close>: \<open>sep.join(groups)\<close>.\<close>

fun join :: "char \<Rightarrow> string list \<Rightarrow> string" where
  "join sep [] = []"
| "join sep [g] = g"
| "join sep (g # h # gs) = g @ sep # join sep (h # gs)"

section \<open>Result reconciliation\<close>

text \<open>
  The arithmetic that \<open>retrieve_job\<close> performs on the histogram of a completed job. The
  histogram maps the integer code of a basis state (the JSON key, read with \<open>int(k)\<close>)
  to a number. Python's floats are modelled by the rationals they denote and their
  operations by exact arithmetic; the two constants below are the doubles written \<open>0.8\<close>
  and \<open>1.2\<close> in the source.
\<close>

definition float_0_8 :: rat where
  "float_0_8 = 3602879701896397 / 4503599627370496"

definition float_1_2 :: rat where
  "float_1_2 = 5404319552844595 / 4503599627370496"

datatype rerror = ZeroDivisionError | KeyError string

text \<open>\<open>bin(n)[2:]\<close> and \<open>s.zfill(w)\<close>.\<close>

fun bin_str :: "nat \<Rightarrow> string" where
  "bin_str n =
    (if n < 2 then [if n = 0 then CHR ''0'' else CHR ''1'']
     else bin_str (n div 2) @ [if n mod 2 = 0 then CHR ''0'' else CHR ''1''])"

declare bin_str.simps [simp del]

definition zfill :: "nat \<Rightarrow> string \<Rightarrow> string" where
  "zfill w s = replicate (w - length s) (CHR ''0'') @ s"

text \<open>\<open>int(x)\<close> of a float: truncation towards zero.\<close>

definition py_int :: "rat \<Rightarrow> int" where
  "py_int x = (if x \<ge> 0 then \<lfloor>x\<rfloor> else \<lceil>x\<rceil>)"

text \<open>\<open>d[k] = v\<close> on a dictionary in insertion order: an existing key keeps its place.\<close>

definition dict_set :: "('k \<times> 'v) list \<Rightarrow> 'k \<Rightarrow> 'v \<Rightarrow> ('k \<times> 'v) list" where
  "dict_set d k v =
    (if has_key d k then map (\<lambda>(k', v'). if k' = k then (k', v) else (k', v')) d
     else d @ [(k, v)])"

text \<open>The first loop sums the raw values; the sum decides between probabilities and
  counts.\<close>

definition raw_sum :: "(nat \<times> rat) list \<Rightarrow> rat" where
  "raw_sum resdata = foldl (\<lambda>sumcnts val. sumcnts + val) 0 (map snd resdata)"

definition flg_probs :: "(nat \<times> rat) list \<Rightarrow> bool" where
  "flg_probs resdata = (raw_sum resdata > float_0_8 \<and> raw_sum resdata < float_1_2)"

text \<open>What the second loop stores for a raw value \<open>v\<close>.\<close>

definition prob_of :: "bool \<Rightarrow> rat \<Rightarrow> rat \<Rightarrow> rat" where
  "prob_of flg shots v = (if flg then v else v / shots)"

definition count_of :: "bool \<Rightarrow> rat \<Rightarrow> rat \<Rightarrow> rat" where
  "count_of flg shots v = (if flg then of_int (py_int (v * shots)) else v)"

type_synonym tally = "(string \<times> rat) list \<times> (string \<times> rat) list \<times> rat \<times> rat"

text \<open>The second loop, on \<open>(probs, cnts, sumcnts, sumprobs)\<close>. Dividing by a zero shot
  count raises.\<close>

fun fill_loop :: "bool \<Rightarrow> rat \<Rightarrow> nat \<Rightarrow> (nat \<times> rat) list \<Rightarrow> tally \<Rightarrow> rerror + tally" where
  "fill_loop flg shots nqbits [] st = Inr st"
| "fill_loop flg shots nqbits ((k, v) # rest) (probs, cnts, sumcnts, sumprobs) =
     (if \<not> flg \<and> shots = 0 then Inl ZeroDivisionError
      else
        (let kbin = zfill nqbits (bin_str k);
             p = prob_of flg shots v;
             c = count_of flg shots v
         in fill_loop flg shots nqbits rest
              (dict_set probs kbin p, dict_set cnts kbin c, sumcnts + c, sumprobs + p)))"

text \<open>\<open>if sumprobs != 1.0: for k,v in probs.items(): probs[k] = v/sumprobs\<close>.\<close>

definition normalize_probs :: "(string \<times> rat) list \<Rightarrow> rat \<Rightarrow> rerror + (string \<times> rat) list" where
  "normalize_probs probs sumprobs =
    (if sumprobs \<noteq> 1 then
       (if probs \<noteq> [] \<and> sumprobs = 0 then Inl ZeroDivisionError
        else Inr (map (\<lambda>(k, v). (k, v / sumprobs)) probs))
     else Inr probs)"

text \<open>The search for the largest count, from \<open>maxk, maxcnt = '', 0\<close>: a later equal
  count does not replace an earlier one.\<close>

fun find_max :: "(string \<times> rat) list \<Rightarrow> string \<times> rat \<Rightarrow> string \<times> rat" where
  "find_max [] m = m"
| "find_max ((k, v) # rest) (maxk, maxcnt) =
     (if v > maxcnt then find_max rest (k, v) else find_max rest (maxk, maxcnt))"

text \<open>\<open>cnts[maxk] += int(shots - sumcnts)\<close> raises KeyError when \<open>maxk\<close> is still \<open>''\<close>.\<close>

definition correct_counts :: "(string \<times> rat) list \<Rightarrow> rat \<Rightarrow> rat \<Rightarrow> rerror + (string \<times> rat) list" where
  "correct_counts cnts sumcnts shots =
    (if sumcnts \<noteq> shots then
       (case find_max cnts ('''', 0) of (maxk, maxcnt) \<Rightarrow>
          (case map_of cnts maxk of
             None \<Rightarrow> Inl (KeyError maxk)
           | Some c \<Rightarrow> Inr (dict_set cnts maxk (c + of_int (py_int (shots - sumcnts))))))
     else Inr cnts)"

text \<open>The result is \<open>(probabilities, counts)\<close>.\<close>

definition reconcile ::
  "rat \<Rightarrow> nat \<Rightarrow> (nat \<times> rat) list \<Rightarrow> rerror + ((string \<times> rat) list \<times> (string \<times> rat) list)" where
  "reconcile shots nqbits resdata =
    (case fill_loop (flg_probs resdata) shots nqbits resdata ([], [], 0, 0) of
       Inl err \<Rightarrow> Inl err
     | Inr (probs, cnts, sumcnts, sumprobs) \<Rightarrow>
        (case normalize_probs probs sumprobs of
           Inl err \<Rightarrow> Inl err
         | Inr probs' \<Rightarrow>
            (case correct_counts cnts sumcnts shots of
               Inl err \<Rightarrow> Inl err
             | Inr cnts' \<Rightarrow> Inr (probs', cnts'))))"

section \<open>Job retrieval\<close>

text \<open>
  \<open>retrieve_job\<close> talks to the service and sleeps between polls. The service is a pair of
  functions giving the answer to the \<open>n\<close>-th status request and to the \<open>m\<close>-th result
  request (\<open>None\<close> when the response is not \<open>ok\<close>); what the client does is recorded as a
  trace of effects. A status response is taken to carry the fields that the code reads
  (\<open>status\<close>, \<open>qubits\<close>, \<open>results_url\<close>); the decompression of a \<open>qiskit_header\<close> in its
  metadata does not touch the results and is left out.
\<close>

record job_data =
  status :: string
  shots :: "rat option"
  qubits :: nat

record service =
  status_response :: "nat \<Rightarrow> job_data option"
  results_response :: "nat \<Rightarrow> (nat \<times> rat) list option"

datatype effect =
    GetStatus string
  | GetResults
  | PrintNoResults
  | PrintWait
  | Sleep nat

datatype outcome =
    Returned job_data "((string \<times> rat) list \<times> (string \<times> rat) list) option"
  | ErrorResponse
  | InvalidJobId jobid_error
  | Raised rerror
  | RaisedUnbound

text \<open>\<open>float(data["shots"]) if "shots" in data.keys() else 1024.0\<close>.\<close>

definition shots_of :: "job_data \<Rightarrow> rat" where
  "shots_of data = (case shots data of Some s \<Rightarrow> s | None \<Rightarrow> 1024)"

text \<open>
  The loop \<open>while wait_minutes >= 0\<close>, with the number \<open>n\<close> of status requests and \<open>m\<close>
  of result requests made so far. A failed or canceled job sets \<open>wait_minutes\<close> to 0, so
  it is returned at once, like any job that is not completed when no waiting time is left
  (a completed job keeps the waiting time: its status is not one of the two). After the
  loop the last response is reported as an error; if the loop never ran there is no
  response to report.
\<close>

definition waited :: "bool \<Rightarrow> effect list \<Rightarrow> effect list" where
  "waited flg_waitprint tr = (if flg_waitprint then tr @ [PrintWait] else tr) @ [Sleep 15]"

function poll ::
  "service \<Rightarrow> string \<Rightarrow> int \<Rightarrow> bool \<Rightarrow> nat \<Rightarrow> nat \<Rightarrow> effect list \<Rightarrow> effect list \<times> outcome" where
  "poll srv jobid wait_minutes flg_waitprint n m tr =
    (if wait_minutes < 0 then (tr, if n = 0 then RaisedUnbound else ErrorResponse)
     else
       (case status_response srv n of
          None \<Rightarrow>
            poll srv jobid (wait_minutes - 1) False (Suc n) m
              (waited flg_waitprint (tr @ [GetStatus jobid]))
        | Some data \<Rightarrow>
            (if status data = ''completed'' then
               (case results_response srv m of
                  Some resdata \<Rightarrow>
                    (case reconcile (shots_of data) (qubits data) resdata of
                       Inl err \<Rightarrow> (tr @ [GetStatus jobid, GetResults], Raised err)
                     | Inr res \<Rightarrow> (tr @ [GetStatus jobid, GetResults], Returned data (Some res)))
                | None \<Rightarrow>
                    poll srv jobid (wait_minutes - 1) False (Suc n) (Suc m)
                      (waited flg_waitprint (tr @ [GetStatus jobid, GetResults, PrintNoResults])))
             else if status data \<in> {''failed'', ''canceled''} \<or> wait_minutes \<le> 0
             then (tr @ [GetStatus jobid], Returned data None)
             else poll srv jobid (wait_minutes - 1) False (Suc n) m
                    (waited flg_waitprint (tr @ [GetStatus jobid])))))"
  by pat_completeness auto
termination
  by (relation "measure (\<lambda>(srv, jobid, w, flg, n, m, tr). nat (w + 1))") auto

declare poll.simps [simp del]

text \<open>\<open>wait_minutes *= 4\<close>: the status is checked in intervals of 15 seconds.\<close>

definition retrieve_job :: "service \<Rightarrow> pyval \<Rightarrow> int \<Rightarrow> effect list \<times> outcome" where
  "retrieve_job srv jobid wait_minutes =
    (case validate_jobid_hash jobid of
       Inl err \<Rightarrow> ([], InvalidJobId err)
     | Inr ident \<Rightarrow> poll srv ident (wait_minutes * 4) True 0 0 [])"

text \<open>The number of status requests and of sleeps in a trace.\<close>

definition status_requests :: "effect list \<Rightarrow> nat" where
  "status_requests tr = length (filter (\<lambda>e. case e of GetStatus i \<Rightarrow> True | _ \<Rightarrow> False) tr)"

definition sleeps :: "effect list \<Rightarrow> nat" where
  "sleeps tr = length (filter (\<lambda>e. case e of Sleep s \<Rightarrow> True | _ \<Rightarrow> False) tr)"

text \<open>A service whose status request fails, and one that reports a running job.\<close>

definition srv_down :: service where
  "srv_down = \<lparr>status_response = (\<lambda>n. None), results_response = (\<lambda>m. None)\<rparr>"

definition srv_running :: service where
  "srv_running =
     \<lparr>status_response = (\<lambda>n. Some \<lparr>status = ''running'', shots = Some 1024, qubits = 2\<rparr>),
      results_response = (\<lambda>m. None)\<rparr>"

text \<open>A service that reports a completed job and whose result request fails.\<close>

definition srv_no_results :: service where
  "srv_no_results =
     \<lparr>status_response = (\<lambda>n. Some \<lparr>status = ''completed'', shots = Some 1024, qubits = 2\<rparr>),
      results_response = (\<lambda>m. None)\<rparr>"

text \<open>A service that reports a completed job of 1024 shots on 2 qubits with the histogram
  \<open>{"0":512,"3":512}\<close>.\<close>

definition srv_done :: service where
  "srv_done =
     \<lparr>status_response = (\<lambda>n. Some \<lparr>status = ''completed'', shots = Some 1024, qubits = 2\<rparr>),
      results_response = (\<lambda>m. Some [(0, 512), (3, 512)])\<rparr>"

text \<open>A service that reports a completed one-shot job on one qubit with the histogram
  \<open>{"0":0.5,"1":0.5}\<close>.\<close>

definition srv_one_shot :: service where
  "srv_one_shot =
     \<lparr>status_response = (\<lambda>n. Some \<lparr>status = ''completed'', shots = Some 1, qubits = 1\<rparr>),
      results_response = (\<lambda>m. Some [(0, 1 / 2), (1, 1 / 2)])\<rparr>"

section \<open>Emission of the circuit in \<open>translate_qasm\<close>\<close>

text \<open>
  The last part of \<open>translate_qasm\<close>: the loop that turns the statements left in
  \<open>qc_list\<close> into operation records, given the register map \<open>qname\<close> that the earlier
  part has built from the \<open>qreg\<close> declaration. The statements still include the
  declarations and the measurements; a statement whose first word is in no table appends
  nothing.

  The variables \<open>qtgt\<close> and \<open>qctl\<close> live across iterations: they are bound only when
  the last operand is a register name, and a record appended with \<open>"targets": qtgt\<close>
  shares the list, so a later \<open>qtgt.append\<close> on the same list shows in that record. The
  state keeps the indices of the records that share the current \<open>qtgt\<close>.
\<close>

datatype terror = TIndexError | TKeyError string | TUnboundLocalError

record emit_state =
  circ_of :: "pyval list"
  qtgt_of :: "nat list option"
  qctl_of :: "nat list option"
  shared_of :: "nat list"

text \<open>\<open>[qname[k] for k in keys]\<close>: the first missing key raises.\<close>

fun lookup_all :: "(string \<times> nat) list \<Rightarrow> string list \<Rightarrow> terror + nat list" where
  "lookup_all qname [] = Inr []"
| "lookup_all qname (k # ks) =
     (case map_of qname k of
        None \<Rightarrow> Inl (TKeyError k)
      | Some q \<Rightarrow> (case lookup_all qname ks of Inl err \<Rightarrow> Inl err | Inr qs \<Rightarrow> Inr (q # qs)))"

definition qubit_list :: "nat list \<Rightarrow> pyval" where
  "qubit_list qs = PList (map (\<lambda>q. PInt (int q)) qs)"

text \<open>The effect of \<open>qtgt.append\<close> on a record that shares the list.\<close>

fun retarget :: "nat list \<Rightarrow> pyval \<Rightarrow> pyval" where
  "retarget t (PDict e) =
     PDict (map (\<lambda>(k, v). if k = ''targets'' then (k, qubit_list t) else (k, v)) e)"
| "retarget t v = v"

definition retarget_shared :: "nat list \<Rightarrow> nat list \<Rightarrow> pyval list \<Rightarrow> pyval list" where
  "retarget_shared t ixs c = map (\<lambda>(i, e). if i \<in> set ixs then retarget t e else e) (zip [0..<length c] c)"

text \<open>\<open>table[g]\<close> for a key \<open>g\<close> of the table.\<close>

definition table_get :: "(string \<times> string) list \<Rightarrow> string \<Rightarrow> pyval" where
  "table_get tab g = (case map_of tab g of Some c \<Rightarrow> PStr c | None \<Rightarrow> PStr g)"

text \<open>The binding of \<open>qtgt\<close> and \<open>qctl\<close> from the operands \<open>qval\<close>, when the last operand is
  a register name.\<close>

definition bind_operands :: "(string \<times> nat) list \<Rightarrow> string list \<Rightarrow> emit_state \<Rightarrow> terror + emit_state" where
  "bind_operands qname qval st =
    (case map_of qname (last qval) of
       None \<Rightarrow> Inr st
     | Some q \<Rightarrow>
        (case lookup_all qname (butlast qval) of
           Inl err \<Rightarrow> Inl err
         | Inr cs \<Rightarrow> Inr (st\<lparr>qtgt_of := Some [q], qctl_of := Some cs, shared_of := []\<rparr>)))"

text \<open>The three table branches for a gate that is not a single-qubit gate.\<close>

definition emit_multi :: "(string \<times> nat) list \<Rightarrow> string \<Rightarrow> string list \<Rightarrow> emit_state \<Rightarrow> terror + emit_state" where
  "emit_multi qname g qval st =
    (if has_key gates_2q_noctl g then
       (case qtgt_of st of
          None \<Rightarrow> Inl TUnboundLocalError
        | Some t \<Rightarrow>
           (case qval of
              [] \<Rightarrow> Inl TIndexError
            | q0 # qs \<Rightarrow>
               (case map_of qname q0 of
                  None \<Rightarrow> Inl (TKeyError q0)
                | Some q \<Rightarrow>
                   Inr (st\<lparr>circ_of := retarget_shared (t @ [q]) (shared_of st) (circ_of st)
                                 @ [PDict [(''gate'', table_get gates_2q_noctl g),
                                           (''targets'', qubit_list (t @ [q]))]],
                            qtgt_of := Some (t @ [q]),
                            shared_of := shared_of st @ [length (circ_of st)]\<rparr>))))
     else if has_key gates_2q_ctl g \<or> has_key gates_mq g then
       (case (qtgt_of st, qctl_of st) of
          (Some t, Some c) \<Rightarrow>
            Inr (st\<lparr>circ_of := circ_of st
                          @ [PDict [(''gate'', table_get (if has_key gates_2q_ctl g
                                                          then gates_2q_ctl else gates_mq) g),
                                    (''targets'', qubit_list t),
                                    (''controls'', qubit_list c)]],
                     shared_of := shared_of st @ [length (circ_of st)]\<rparr>)
        | _ \<Rightarrow> Inl TUnboundLocalError)
     else Inr st)"

text \<open>One iteration: \<open>vals = qc_list[j].split(" ")\<close>; \<open>vals[1]\<close> raises IndexError when the
  statement has no second word. (\<open>split\<close> never returns an empty list.)\<close>

definition emit_step :: "(string \<times> nat) list \<Rightarrow> emit_state \<Rightarrow> string \<Rightarrow> terror + emit_state" where
  "emit_step qname st line =
    (case split_on (CHR '' '') line of
       [] \<Rightarrow> Inl TIndexError
     | [g] \<Rightarrow> Inl TIndexError
     | g # v1 # rest \<Rightarrow>
        (if has_key gates_1q g then
           (case map_of qname v1 of
              None \<Rightarrow> Inl (TKeyError v1)
            | Some q \<Rightarrow>
               Inr (st\<lparr>circ_of := circ_of st
                         @ [PDict [(''gate'', table_get gates_1q g), (''target'', PInt (int q))]]\<rparr>))
         else
           (case bind_operands qname (split_on (CHR '','') v1) st of
              Inl err \<Rightarrow> Inl err
            | Inr st1 \<Rightarrow> emit_multi qname g (split_on (CHR '','') v1) st1)))"

fun emit_loop :: "(string \<times> nat) list \<Rightarrow> string list \<Rightarrow> emit_state \<Rightarrow> terror + emit_state" where
  "emit_loop qname [] st = Inr st"
| "emit_loop qname (line # rest) st =
     (case emit_step qname st line of
        Inl err \<Rightarrow> Inl err
      | Inr st' \<Rightarrow> emit_loop qname rest st')"

text \<open>The \<open>circuit\<close> entry of the returned body; the loop runs only \<open>if len(qname) > 0\<close>.\<close>

definition emit_circuit :: "(string \<times> nat) list \<Rightarrow> string list \<Rightarrow> terror + pyval list" where
  "emit_circuit qname qc_list =
    (if qname = [] then Inr []
     else (case emit_loop qname qc_list \<lparr>circ_of = [], qtgt_of = None, qctl_of = None, shared_of = []\<rparr> of
             Inl err \<Rightarrow> Inl err
           | Inr st \<Rightarrow> Inr (circ_of st)))"

text \<open>A mnemonic that is in none of the four translation tables.\<close>

definition unknown_mnemonic :: "string \<Rightarrow> bool" where
  "unknown_mnemonic g =
    (\<not> has_key gates_1q g \<and> \<not> has_key gates_2q_ctl g
     \<and> \<not> has_key gates_2q_noctl g \<and> \<not> has_key gates_mq g)"

text \<open>A two-qubit register and three statements, the second with an unknown mnemonic.\<close>

definition q2 :: "(string \<times> nat) list" where
  "q2 = [(''q[0]'', 0), (''q[1]'', 1)]"

definition prog_foo :: "string list" where
  "prog_foo = [''h q[0]'', ''foo q[0],q[1]'', ''cx q[0],q[1]'']"

section \<open>Properties of the circuit validator\<close>

lemma validate_loop_Inr:
  "validate_loop j es vc up = Inr (vc', up') \<Longrightarrow>
   \<exists>rs. length rs = length es
      \<and> (\<forall>i<length es. validate_entry (j + i) (es ! i) = Inr (rs ! i))
      \<and> vc' = vc @ concat (map fst rs)
      \<and> up' = up @ map (\<lambda>i. j + i) (filter (\<lambda>i. snd (rs ! i)) [0..<length es])"
proof (induction es arbitrary: j vc up)
  case Nil
  then show ?case by simp
next
  case (Cons e es)
  from Cons.prems obtain new upd where
    ent: "validate_entry j e = Inr (new, upd)" and
    rest: "validate_loop (Suc j) es (vc @ new) (if upd then up @ [j] else up) = Inr (vc', up')"
    by (auto split: sum.splits)
  from Cons.IH [OF rest] obtain rs where
    len: "length rs = length es" and
    each: "\<forall>i<length es. validate_entry (Suc j + i) (es ! i) = Inr (rs ! i)" and
    vc: "vc' = (vc @ new) @ concat (map fst rs)" and
    up: "up' = (if upd then up @ [j] else up)
               @ map (\<lambda>i. Suc j + i) (filter (\<lambda>i. snd (rs ! i)) [0..<length es])"
    by blast
  let ?rs = "(new, upd) # rs"
  have a: "length ?rs = length (e # es)" using len by simp
  have b: "\<forall>i<length (e # es). validate_entry (j + i) ((e # es) ! i) = Inr (?rs ! i)"
  proof (intro allI impI)
    fix i assume "i < length (e # es)"
    then show "validate_entry (j + i) ((e # es) ! i) = Inr (?rs ! i)"
      using ent each by (cases i) auto
  qed
  have c: "vc' = vc @ concat (map fst ?rs)" using vc by simp
  have upt: "[0..<length (e # es)] = 0 # map Suc [0..<length es]"
    by (simp add: upt_conv_Cons map_Suc_upt del: upt_Suc)
  have shift: "map (\<lambda>i. j + i) (filter (\<lambda>i. snd (?rs ! i)) (map Suc [0..<length es]))
               = map (\<lambda>i. Suc j + i) (filter (\<lambda>i. snd (rs ! i)) [0..<length es])"
    by (simp add: filter_map comp_def)
  have d: "up' = up @ map (\<lambda>i. j + i) (filter (\<lambda>i. snd (?rs ! i)) [0..<length (e # es)])"
    unfolding upt using up shift by (cases upd) simp_all
  from a b c d show ?case by blast
qed


lemma validate_entry_nogate:
  "map_of entry ''gate'' = None \<Longrightarrow> validate_entry j (PDict entry) = Inr ([], False)"
  by (simp add: validate_entry_def)

lemma validate_entry_notarget:
  "map_of entry ''gate'' = Some mygate \<Longrightarrow> read_targets entry = None \<Longrightarrow>
   validate_entry j (PDict entry) = Inl (NoTarget j mygate)"
  by (simp add: validate_entry_def)

lemma validate_entry_unhashable:
  "map_of entry ''gate'' = Some mygate \<Longrightarrow> read_targets entry = Some (t, f1) \<Longrightarrow>
   special_lookup mygate = Inl err \<Longrightarrow>
   validate_entry j (PDict entry) = Inl err"
  by (simp add: validate_entry_def split: prod.split)

lemma validate_entry_special:
  "map_of entry ''gate'' = Some mygate \<Longrightarrow> read_targets entry = Some (t, f1) \<Longrightarrow>
   read_controls entry = (c, f2) \<Longrightarrow>
   special_lookup mygate = Inr (Some (qtgt, qctl, qpar, qgates)) \<Longrightarrow>
   validate_entry j (PDict entry) =
     (if length qtgt \<noteq> length t \<or> length qctl \<noteq> length c
      then Inl (SpecialArity j mygate)
      else (case expand_special (t @ c) qgates of
              None \<Rightarrow> Inl IndexError
            | Some circs \<Rightarrow> Inr (circs, True)))"
  by (simp add: validate_entry_def)

lemma validate_entry_plain:
  "map_of entry ''gate'' = Some mygate \<Longrightarrow> read_targets entry = Some (t, f1) \<Longrightarrow>
   read_controls entry = (c, f2) \<Longrightarrow>
   special_lookup mygate = Inr None \<Longrightarrow>
   validate_entry j (PDict entry) =
     (case classify j mygate t c of
        Inl err \<Rightarrow> Inl err
      | Inr (g, tv, cv, f3) \<Rightarrow>
         (if (f1 \<or> f2 \<or> read_parameters entry \<or> read_rotations entry) \<or> f3
          then Inr ([PDict ([(''gate'', g), (''targets'', PList tv)]
                      @ (if cv \<noteq> [] then [(''controls'', PList cv)] else []))], True)
          else Inr ([PDict entry], False)))"
  by (simp add: validate_entry_def)

lemma validate_entry_notdict:
  "validate_entry j e = Inr r \<Longrightarrow> \<exists>entry. e = PDict entry"
  by (cases e) (simp_all add: validate_entry_def)


lemma validate_circuit_Inr:
  assumes "validate_circuit (PList es) = Inr (out, ups)"
  shows "\<exists>rs. length rs = length es
      \<and> (\<forall>i<length es. validate_entry i (es ! i) = Inr (rs ! i))
      \<and> out = concat (map fst rs)
      \<and> ups = filter (\<lambda>i. snd (rs ! i)) [0..<length es]
      \<and> out \<noteq> []"
proof -
  from assms have loop: "validate_loop 0 es [] [] = Inr (out, ups)" and ne: "out \<noteq> []"
    by (auto simp: validate_circuit_def split: sum.splits prod.splits if_splits)
  from validate_loop_Inr [OF loop] obtain rs where
    "length rs = length es"
    "\<forall>i<length es. validate_entry (0 + i) (es ! i) = Inr (rs ! i)"
    "out = [] @ concat (map fst rs)"
    "ups = [] @ map (\<lambda>i. 0 + i) (filter (\<lambda>i. snd (rs ! i)) [0..<length es])"
    by blast
  with ne show ?thesis by (intro exI [of _ rs]) simp
qed


subsection \<open>Shape correction\<close>

lemma shape_changed_flags:
  "shape_changed entry \<Longrightarrow> read_targets entry = Some (t, f1) \<Longrightarrow>
   read_controls entry = (c, f2) \<Longrightarrow> f1 \<or> f2"
  unfolding shape_changed_def read_targets_def read_controls_def
  by (auto split: option.splits)

lemma validate_entry_shape:
  assumes ok: "validate_entry j (PDict entry) = Inr (new, upd)"
    and gate: "map_of entry ''gate'' = Some mygate"
    and shape: "shape_changed entry"
  shows "upd"
proof (cases "read_targets entry")
  case None
  with gate ok show ?thesis by (simp add: validate_entry_notarget)
next
  case (Some tf)
  obtain t f1 where tf: "read_targets entry = Some (t, f1)" using Some by (cases tf) auto
  obtain c f2 where cf: "read_controls entry = (c, f2)" by (cases "read_controls entry") auto
  have flg: "f1 \<or> f2" using shape_changed_flags [OF shape tf cf] .
  show ?thesis
  proof (cases "special_lookup mygate")
    case (Inl err)
    with gate tf ok show ?thesis by (simp add: validate_entry_unhashable)
  next
    case (Inr m)
    show ?thesis
    proof (cases m)
      case None
      with Inr gate tf cf ok flg show ?thesis
        by (auto simp: validate_entry_plain split: sum.splits prod.splits)
    next
      case (Some mac)
      obtain qt qc qp qg where mac: "mac = (qt, qc, qp, qg)" by (cases mac) auto
      with Some Inr gate tf cf ok show ?thesis
        by (auto simp: validate_entry_special split: if_splits option.splits)
    qed
  qed
qed

lemma x_entry_run:
  "validate_circuit (PList [x_entry]) = Inr ([x_entry_validated], [0])"
  by (simp add: validate_circuit_def validate_entry_def read_targets_def read_controls_def
      read_parameters_def read_rotations_def classify_def gates_special_def gates_2q_ctl_def
      x_entry_def x_entry_validated_def)

text \<open>
  Claim C7. Validating the single-entry circuit \<open>[{"gate":"x","target":[1],"control":0}]\<close>
  succeeds with the record \<open>{"gate":"x","targets":[1],"controls":[0]}\<close> and index 0 in
  \<open>updated_entries\<close>. In general, whenever a validation succeeds, every entry with a gate
  whose target or control field had to change between scalar and list form has its index
  in \<open>updated_entries\<close>.
\<close>

theorem shape_correction_recorded:
  "validate_circuit (PList [x_entry]) = Inr ([x_entry_validated], [0])
   \<and> (\<forall>es out ups i entry.
         validate_circuit (PList es) = Inr (out, ups) \<and> i < length es \<and> es ! i = PDict entry
         \<and> has_key entry ''gate'' \<and> shape_changed entry
         \<longrightarrow> i \<in> set ups)"
proof (intro conjI allI impI)
  show "validate_circuit (PList [x_entry]) = Inr ([x_entry_validated], [0])"
    by (rule x_entry_run)
next
  fix es out ups i entry
  assume h: "validate_circuit (PList es) = Inr (out, ups) \<and> i < length es \<and> es ! i = PDict entry
         \<and> has_key entry ''gate'' \<and> shape_changed entry"
  then have loop: "validate_loop 0 es [] [] = Inr (out, ups)"
    by (auto simp: validate_circuit_def split: sum.splits prod.splits if_splits)
  from validate_loop_Inr [OF loop] obtain rs where
    each: "\<forall>i<length es. validate_entry (0 + i) (es ! i) = Inr (rs ! i)" and
    ups: "ups = [] @ map (\<lambda>i. 0 + i) (filter (\<lambda>i. snd (rs ! i)) [0..<length es])"
    by blast
  from h obtain mygate where gate: "map_of entry ''gate'' = Some mygate"
    by (auto simp: has_key_def)
  from h each have "validate_entry i (PDict entry) = Inr (fst (rs ! i), snd (rs ! i))"
    by auto
  from validate_entry_shape [OF this gate] h have "snd (rs ! i)" by blast
  with h ups show "i \<in> set ups" by simp
qed

text \<open>The general part of C7 at the scenario's own circuit.\<close>

theorem shape_correction_recorded_witness:
  "validate_circuit (PList [x_entry]) = Inr ([x_entry_validated], [0])
   \<and> 0 < length [x_entry]
   \<and> [x_entry] ! 0 = PDict [(''gate'', PStr ''x''), (''target'', PList [PInt 1]), (''control'', PInt 0)]
   \<and> has_key [(''gate'', PStr ''x''), (''target'', PList [PInt 1]), (''control'', PInt 0)] ''gate''
   \<and> shape_changed [(''gate'', PStr ''x''), (''target'', PList [PInt 1]), (''control'', PInt 0)]
   \<and> (0::nat) \<in> set [0]"
  using shape_correction_recorded
  by (simp add: x_entry_def has_key_def shape_changed_def)

subsection \<open>Macro arity\<close>



subsection \<open>Rewritten records\<close>

text \<open>
  Claim C10. In a successful validation, an entry with a gate that is not a macro and whose
  index is in \<open>updated_entries\<close> contributes exactly one record to the output; that record
  has the keys \<open>gate\<close>, \<open>targets\<close> and, exactly when its controls are non-empty,
  \<open>controls\<close>, and none of \<open>parameters\<close>, \<open>parameter\<close>, \<open>rotations\<close>, \<open>rotation\<close>.
\<close>

theorem rewritten_entry_keys:
  assumes ok: "validate_circuit (PList es) = Inr (out, ups)"
    and i: "i < length es"
    and ent: "es ! i = PDict entry"
    and gate: "map_of entry ''gate'' = Some mygate"
    and plain: "\<not> in_keys gates_special mygate"
    and rewritten: "i \<in> set ups"
  shows "\<exists>r g tv cv.
           validate_entry i (es ! i) = Inr ([PDict r], True)
           \<and> PDict r \<in> set out
           \<and> r = [(''gate'', g), (''targets'', PList tv)]
                 @ (if cv \<noteq> [] then [(''controls'', PList cv)] else [])
           \<and> map fst r = (if cv \<noteq> [] then [''gate'', ''targets'', ''controls'']
                            else [''gate'', ''targets''])
           \<and> (has_key r ''controls'' \<longleftrightarrow> cv \<noteq> [])
           \<and> \<not> has_key r ''parameters'' \<and> \<not> has_key r ''parameter''
           \<and> \<not> has_key r ''rotations'' \<and> \<not> has_key r ''rotation''"
proof -
  from validate_circuit_Inr [OF ok] obtain rs where
    len: "length rs = length es" and
    each: "\<forall>i<length es. validate_entry i (es ! i) = Inr (rs ! i)" and
    out: "out = concat (map fst rs)" and
    ups: "ups = filter (\<lambda>i. snd (rs ! i)) [0..<length es]"
    by blast
  from rewritten ups have upd: "snd (rs ! i)" by simp
  from each i ent have run: "validate_entry i (PDict entry) = Inr (fst (rs ! i), True)"
    using upd by (metis prod.collapse)
  have sub: "set (fst (rs ! i)) \<subseteq> set out"
    using out i len by (auto intro!: bexI [of _ "rs ! i"])
  obtain t f1 where tf: "read_targets entry = Some (t, f1)"
    using run gate by (cases "read_targets entry") (auto simp: validate_entry_notarget)
  obtain c f2 where cf: "read_controls entry = (c, f2)" by (cases "read_controls entry") auto
  have sp: "special_lookup mygate = Inr None"
  proof (cases "special_lookup mygate")
    case (Inl err)
    with gate tf run show ?thesis by (simp add: validate_entry_unhashable)
  next
    case (Inr m)
    with plain show ?thesis by (cases mygate; cases m) (auto simp: has_key_def)
  qed
  obtain g tv cv f3 where cl: "classify i mygate t c = Inr (g, tv, cv, f3)"
    using run unfolding validate_entry_plain [OF gate tf cf sp]
    by (cases "classify i mygate t c") auto
  have new: "fst (rs ! i) = [PDict ([(''gate'', g), (''targets'', PList tv)]
                      @ (if cv \<noteq> [] then [(''controls'', PList cv)] else []))]"
    using run unfolding validate_entry_plain [OF gate tf cf sp] cl
    by (simp split: if_splits)
  let ?r = "[(''gate'', g), (''targets'', PList tv)]
            @ (if cv \<noteq> [] then [(''controls'', PList cv)] else [])"
  have "validate_entry i (es ! i) = Inr ([PDict ?r], True)" using run new ent by simp
  moreover have "PDict ?r \<in> set out" using sub new by simp
  ultimately show ?thesis
    by (rule_tac exI [of _ ?r], rule_tac exI [of _ g], rule_tac exI [of _ tv],
        rule_tac exI [of _ cv]) (auto simp: has_key_def)
qed


text \<open>C10 at a rotation entry: the rewritten record has lost its \<open>rotation\<close>.\<close>

theorem rewritten_entry_keys_witness:
  "validate_circuit (PList [PDict rz_entry])
     = Inr ([PDict [(''gate'', PStr ''rz''), (''targets'', PList [PInt 0])]], [0])
   \<and> has_key rz_entry ''rotation''
   \<and> \<not> in_keys gates_special (PStr ''rz'')
   \<and> (\<exists>r g tv cv.
         validate_entry 0 ([PDict rz_entry] ! 0) = Inr ([PDict r], True)
         \<and> PDict r \<in> set [PDict [(''gate'', PStr ''rz''), (''targets'', PList [PInt 0])]]
         \<and> r = [(''gate'', g), (''targets'', PList tv)]
               @ (if cv \<noteq> [] then [(''controls'', PList cv)] else [])
         \<and> map fst r = (if cv \<noteq> [] then [''gate'', ''targets'', ''controls'']
                          else [''gate'', ''targets''])
         \<and> (has_key r ''controls'' \<longleftrightarrow> cv \<noteq> [])
         \<and> \<not> has_key r ''parameters'' \<and> \<not> has_key r ''parameter''
         \<and> \<not> has_key r ''rotations'' \<and> \<not> has_key r ''rotation'')"
proof -
  have a: "validate_circuit (PList [PDict rz_entry])
     = Inr ([PDict [(''gate'', PStr ''rz''), (''targets'', PList [PInt 0])]], [0])"
    by (simp add: validate_circuit_def validate_entry_def read_targets_def read_controls_def
        read_parameters_def read_rotations_def classify_def gates_special_def gates_1q_def
        rz_entry_def)
  have b: "(0::nat) < length [PDict rz_entry]" by simp
  have c: "[PDict rz_entry] ! 0 = PDict rz_entry" by simp
  have d: "map_of rz_entry ''gate'' = Some (PStr ''rz'')" by (simp add: rz_entry_def)
  have e: "\<not> in_keys gates_special (PStr ''rz'')" by (simp add: gates_special_def has_key_def)
  have f: "(0::nat) \<in> set [0]" by simp
  have g: "has_key rz_entry ''rotation''" by (simp add: rz_entry_def has_key_def)
  from rewritten_entry_keys [OF a b c d e f] a e g show ?thesis by blast
qed

subsection \<open>Validated operations are well-formed and well-classified\<close>

lemma map_of_in_values: "map_of tab x = Some y \<Longrightarrow> y \<in> snd ` set tab"
  by (metis map_of_SomeD snd_conv image_eqI)

lemma remap_in_values: "in_keys tab mg \<Longrightarrow> in_values tab (remap tab mg)"
  by (cases mg) (auto simp: has_key_def map_of_in_values split: option.splits)

lemma classify_result:
  assumes "classify j mg t c = Inr (g, tv, cv, f3)" and "t \<noteq> []"
  shows "in_values (gate_class (length tv) (length cv)) g
         \<and> (\<not> f3 \<longrightarrow> g = mg \<and> tv = t \<and> cv = c)"
  using assms unfolding classify_def gate_class_def
  by (auto simp: remap_in_values split: if_splits)

lemma classify_canonical:
  "in_values (gate_class (length t) (length c)) g \<Longrightarrow> classify k g t c = Inr (g, t, c, False)"
  unfolding classify_def gate_class_def by (auto split: if_splits)

lemma canonical_not_special:
  "in_values (gate_class nt nc) g \<Longrightarrow> special_lookup g = Inr None"
  by (cases g)
     (auto simp: gate_class_def gates_special_def gates_1q_def gates_2q_ctl_def
        gates_2q_noctl_def gates_mq_def split: if_splits)


lemma well_shaped_reads:
  assumes "well_shaped entry"
  shows "read_targets entry = Some (entry_targets entry, False)"
    and "read_controls entry = (entry_controls entry, False)"
    and "\<not> read_parameters entry" and "\<not> read_rotations entry"
  using assms
  unfolding well_shaped_def read_targets_def read_controls_def read_parameters_def
    read_rotations_def entry_targets_def entry_controls_def
  by (auto split: option.splits)

lemma reads_well_shaped:
  assumes "read_targets entry = Some (t, False)" and "read_controls entry = (c, False)"
    and "\<not> read_parameters entry" and "\<not> read_rotations entry"
  shows "well_shaped entry \<and> entry_targets entry = t \<and> entry_controls entry = c"
  using assms
  unfolding well_shaped_def read_targets_def read_controls_def read_parameters_def
    read_rotations_def entry_targets_def entry_controls_def
  by (auto split: option.splits)

lemma read_targets_entry_targets:
  "read_targets entry = Some (t, f) \<Longrightarrow> entry_targets entry = t"
  unfolding read_targets_def entry_targets_def by (auto split: option.splits)

lemma canonical_op_stable:
  assumes "canonical_op e"
  shows "validate_entry k e = Inr ([e], False)"
proof -
  from assms obtain entry where e: "e = PDict entry" and ws: "well_shaped entry"
    and wc: "well_classified entry"
    by (cases e) (auto simp: canonical_op_def)
  from wc obtain g where gate: "map_of entry ''gate'' = Some g"
    and cls: "in_values (gate_class (length (entry_targets entry)) (length (entry_controls entry))) g"
    by (auto simp: well_classified_def split: option.splits)
  note rd = well_shaped_reads [OF ws]
  have sp: "special_lookup g = Inr None" using cls by (rule canonical_not_special)
  show ?thesis
    unfolding e validate_entry_plain [OF gate rd(1) rd(2) sp] classify_canonical [OF cls]
    using rd(3) rd(4) by simp
qed

lemma rewritten_record_canonical:
  assumes "in_values (gate_class (length tv) (length cv)) g"
  shows "canonical_op (PDict ([(''gate'', g), (''targets'', PList tv)]
           @ (if cv \<noteq> [] then [(''controls'', PList cv)] else [])))"
  using assms
  by (cases cv) (simp_all add: canonical_op_def well_shaped_def well_classified_def
      entry_targets_def entry_controls_def)

lemma py_items_length: "py_items qbits ixs = Some r \<Longrightarrow> length r = length ixs"
  by (induction ixs arbitrary: r) (auto split: if_splits option.splits)

lemma expand_step_canonical:
  assumes "expand_step qbits st = Some r" and "step_ok st"
  shows "canonical_op (PDict r)"
proof -
  obtain g t c p where st: "st = (g, t, c, p)" by (cases st) auto
  from assms(1) obtain myt myc where
    t: "py_items qbits t = Some myt" and
    c: "(if c \<noteq> [] then py_items qbits c else Some []) = Some myc" and
    r: "r = [(''gate'', PStr g), (''targets'', PList myt)]
            @ (if c \<noteq> [] then [(''controls'', PList myc)] else [])
            @ (if p \<noteq> [] then [(''parameters'', PList (map PFloat p))] else [])"
    unfolding st expand_step_def by (auto split: option.splits)
  have lt: "length myt = length t" using t by (rule py_items_length)
  have lc: "length myc = length c" using c by (auto simp: py_items_length split: if_splits)
  from assms(2) have cls: "in_values (gate_class (length myt) (length myc)) (PStr g)"
    unfolding st step_ok_def lt lc by simp
  show ?thesis using cls lc unfolding r
    by (cases c; cases p) (simp_all add: canonical_op_def well_shaped_def well_classified_def
        entry_targets_def entry_controls_def)
qed

lemma expand_special_canonical:
  "expand_special qbits sts = Some new \<Longrightarrow> \<forall>st\<in>set sts. step_ok st \<Longrightarrow>
   \<forall>o'\<in>set new. canonical_op o'"
  by (induction sts arbitrary: new)
     (auto split: option.splits dest: expand_step_canonical)

lemma all_macro_steps_ok:
  "\<forall>m\<in>set gates_special. \<forall>st\<in>set (snd (snd (snd (snd m)))). step_ok st"
  by code_simp

lemma gates_special_steps_ok:
  assumes "map_of gates_special g = Some (qt, qc, qp, qg)"
  shows "\<forall>st\<in>set qg. step_ok st"
proof -
  from assms have "(g, qt, qc, qp, qg) \<in> set gates_special" by (rule map_of_SomeD)
  with all_macro_steps_ok show ?thesis by fastforce
qed


lemma special_lookup_Some:
  "special_lookup mygate = Inr (Some mac) \<Longrightarrow> \<exists>g. mygate = PStr g \<and> map_of gates_special g = Some mac"
  by (cases mygate) auto

lemma validate_entry_canonical:
  assumes run: "validate_entry j e = Inr (new, upd)" and nt: "names_target e"
  shows "\<forall>o'\<in>set new. canonical_op o'"
proof -
  from validate_entry_notdict [OF run] obtain entry where e: "e = PDict entry" by blast
  show ?thesis
  proof (cases "map_of entry ''gate''")
    case None
    with run e show ?thesis by (simp add: validate_entry_nogate)
  next
    case (Some mygate)
    note gate = this
    obtain t f1 where tf: "read_targets entry = Some (t, f1)"
      using run gate e by (cases "read_targets entry") (auto simp: validate_entry_notarget)
    obtain c f2 where cf: "read_controls entry = (c, f2)" by (cases "read_controls entry") auto
    have tne: "t \<noteq> []"
      using nt gate read_targets_entry_targets [OF tf] by (simp add: names_target_def e has_key_def)
    show ?thesis
    proof (cases "special_lookup mygate")
      case (Inl err)
      with gate tf run e show ?thesis by (simp add: validate_entry_unhashable)
    next
      case (Inr m)
      show ?thesis
      proof (cases m)
        case None
        with Inr have sp: "special_lookup mygate = Inr None" by simp
        obtain g tv cv f3 where cl: "classify j mygate t c = Inr (g, tv, cv, f3)"
          using run unfolding e validate_entry_plain [OF gate tf cf sp]
          by (cases "classify j mygate t c") auto
        note res = classify_result [OF cl tne]
        show ?thesis
        proof (cases "(f1 \<or> f2 \<or> read_parameters entry \<or> read_rotations entry) \<or> f3")
          case True
          then have "new = [PDict ([(''gate'', g), (''targets'', PList tv)]
                      @ (if cv \<noteq> [] then [(''controls'', PList cv)] else []))]"
            using run unfolding e validate_entry_plain [OF gate tf cf sp] cl by simp
          then show ?thesis using rewritten_record_canonical res by simp
        next
          case False
          then have new: "new = [PDict entry]"
            using run unfolding e validate_entry_plain [OF gate tf cf sp] cl by simp
          from False res have same: "g = mygate" "tv = t" "cv = c" by auto
          from False tf cf have "well_shaped entry \<and> entry_targets entry = t \<and> entry_controls entry = c"
            by (intro reads_well_shaped) auto
          moreover have "in_values (gate_class (length t) (length c)) mygate"
            using res same by simp
          ultimately have "canonical_op (PDict entry)"
            using gate by (simp add: canonical_op_def well_classified_def)
          with new show ?thesis by simp
        qed
      next
        case (Some mac)
        obtain qt qc qp qg where mac: "mac = (qt, qc, qp, qg)" by (cases mac) auto
        from Inr Some mac have sp: "special_lookup mygate = Inr (Some (qt, qc, qp, qg))" by simp
        from special_lookup_Some [OF sp] obtain g where
          tab: "map_of gates_special g = Some (qt, qc, qp, qg)" by blast
        have "expand_special (t @ c) qg = Some new"
          using run unfolding e validate_entry_special [OF gate tf cf sp]
          by (auto split: if_splits option.splits)
        then show ?thesis
          using gates_special_steps_ok [OF tab] by (rule expand_special_canonical)
      qed
    qed
  qed
qed

lemma validated_ops_canonical:
  assumes ok: "validate_circuit (PList es) = Inr (out, ups)"
    and nt: "\<forall>e\<in>set es. names_target e"
  shows "\<forall>o'\<in>set out. canonical_op o'"
proof
  fix o' assume o: "o' \<in> set out"
  from validate_circuit_Inr [OF ok] obtain rs where
    len: "length rs = length es" and
    each: "\<forall>i<length es. validate_entry i (es ! i) = Inr (rs ! i)" and
    out: "out = concat (map fst rs)"
    by blast
  from o out obtain r where r: "r \<in> set rs" and o': "o' \<in> set (fst r)" by auto
  from r obtain i where i: "i < length rs" and ri: "rs ! i = r" by (auto simp: in_set_conv_nth)
  from each i len ri have "validate_entry i (es ! i) = Inr (fst r, snd r)" by simp
  moreover have "names_target (es ! i)" using nt i len by simp
  ultimately have "\<forall>o'\<in>set (fst r). canonical_op o'" by (rule validate_entry_canonical)
  with o' show "canonical_op o'" by blast
qed

lemma validate_loop_canonical:
  "\<forall>e\<in>set es. canonical_op e \<Longrightarrow> validate_loop j es vc up = Inr (vc @ es, up)"
  by (induction es arbitrary: j vc up) (simp_all add: canonical_op_stable)

lemma validate_circuit_canonical:
  "es \<noteq> [] \<Longrightarrow> \<forall>e\<in>set es. canonical_op e \<Longrightarrow> validate_circuit (PList es) = Inr (es, [])"
  by (simp add: validate_circuit_def validate_loop_canonical)

subsection \<open>Arity classes and re-validation\<close>

lemmas run_defs = validate_circuit_def validate_entry_def read_targets_def read_controls_def
      read_parameters_def read_rotations_def classify_def gates_special_def gates_1q_def
      gates_2q_ctl_def gates_2q_noctl_def gates_mq_def has_key_def

text \<open>
  Claim C3 as stated fails: \<open>{"gate":"swap","targets":[0,1,2]}\<close> validates, unchanged, with
  three targets, although \<open>swap\<close> is a two-qubit gate. The branch for more than one target
  checks the gate name only.
\<close>

theorem three_target_swap_validates:
  "validate_circuit (PList [swap3_entry]) = Inr ([swap3_entry], [])
   \<and> swap3_entry = PDict [(''gate'', PStr ''swap''), (''targets'', PList [PInt 0, PInt 1, PInt 2])]
   \<and> length (entry_targets [(''gate'', PStr ''swap''), (''targets'', PList [PInt 0, PInt 1, PInt 2])]) = 3"
  by (simp add: run_defs swap3_entry_def entry_targets_def)

text \<open>
  Claim C3, amended. When validation succeeds on a circuit whose entries each name at least
  one target, every returned operation is a well-formed record whose gate is a canonical
  name of the one class selected by its counts: two-qubit-uncontrolled for more than one
  target, otherwise multi-control for more than one control, two-qubit-controlled for
  exactly one control, single-qubit for none.
\<close>

theorem validated_ops_classified:
  assumes "validate_circuit (PList es) = Inr (out, ups)"
    and "\<forall>e\<in>set es. names_target e"
  shows "\<forall>o'\<in>set out. \<exists>entry g.
           o' = PDict entry \<and> well_shaped entry \<and> map_of entry ''gate'' = Some (PStr g)
           \<and> g \<in> set (map snd (gate_class (length (entry_targets entry))
                                            (length (entry_controls entry))))"
proof
  fix o' assume "o' \<in> set out"
  with validated_ops_canonical [OF assms] have c: "canonical_op o'" by blast
  then obtain entry where e: "o' = PDict entry" and ws: "well_shaped entry"
    and wc: "well_classified entry"
    by (cases o') (auto simp: canonical_op_def)
  from wc obtain v where gate: "map_of entry ''gate'' = Some v"
    and cls: "in_values (gate_class (length (entry_targets entry)) (length (entry_controls entry))) v"
    by (auto simp: well_classified_def split: option.splits)
  from cls obtain g where "v = PStr g" by (cases v) auto
  with e ws gate cls show "\<exists>entry g.
           o' = PDict entry \<and> well_shaped entry \<and> map_of entry ''gate'' = Some (PStr g)
           \<and> g \<in> set (map snd (gate_class (length (entry_targets entry))
                                            (length (entry_controls entry))))"
    by auto
qed

text \<open>
  The amended C3 at the shape-correction scenario.
\<close>

theorem validated_ops_classified_witness:
  "validate_circuit (PList [x_entry]) = Inr ([x_entry_validated], [0])
   \<and> names_target x_entry
   \<and> (\<exists>entry g.
        x_entry_validated = PDict entry \<and> well_shaped entry \<and> map_of entry ''gate'' = Some (PStr g)
        \<and> g \<in> set (map snd (gate_class (length (entry_targets entry))
                                         (length (entry_controls entry)))))"
proof -
  have a: "validate_circuit (PList [x_entry]) = Inr ([x_entry_validated], [0])"
    by (simp add: run_defs x_entry_def x_entry_validated_def)
  have b: "names_target x_entry"
    by (simp add: names_target_def x_entry_def has_key_def entry_targets_def)
  then have b': "\<forall>e\<in>set [x_entry]. names_target e" by simp
  from validated_ops_classified [OF a b'] a b show ?thesis by simp
qed

text \<open>
  Claim C8 as stated fails twice. The empty list, all of whose entries are well-formed, is
  answered with the error "no gates" instead of an empty \<open>updated_entries\<close>. And
  \<open>{"gate":"swap","targets":[],"control":1}\<close> validates to \<open>{"gate":"swap","targets":[1]}\<close>,
  which a second validation rejects as not being a one-qubit gate.
\<close>

theorem revalidation_counterexample:
  "validate_circuit (PList []) = Inl NoGates
   \<and> validate_circuit (PList [swap0_entry]) = Inr ([swap0_validated], [0])
   \<and> validate_circuit (PList [swap0_validated]) = Inl (NotOneQubitGate 0 (PStr ''swap''))"
  by (simp add: run_defs swap0_entry_def swap0_validated_def)

text \<open>
  Claim C8, amended. A non-empty list of well-formed, well-classified records is returned
  as it is, with no updated entries; validating again the output of a successful validation
  of a circuit whose entries each name at least one target returns that output with no
  updated entries; and \<open>{"gate":"h","target":0}\<close> validates unchanged.
\<close>

theorem canonical_entries_unchanged:
  "(\<forall>es. es \<noteq> [] \<and> (\<forall>e\<in>set es. canonical_op e)
         \<longrightarrow> validate_circuit (PList es) = Inr (es, []))
   \<and> (\<forall>es out ups. validate_circuit (PList es) = Inr (out, ups) \<and> (\<forall>e\<in>set es. names_target e)
         \<longrightarrow> validate_circuit (PList out) = Inr (out, []))
   \<and> validate_circuit (PList [h_entry]) = Inr ([h_entry], [])"
proof (intro conjI allI impI)
  fix es assume "es \<noteq> [] \<and> (\<forall>e\<in>set es. canonical_op e)"
  then show "validate_circuit (PList es) = Inr (es, [])"
    by (simp add: validate_circuit_canonical)
next
  fix es out ups
  assume h: "validate_circuit (PList es) = Inr (out, ups) \<and> (\<forall>e\<in>set es. names_target e)"
  then have "\<forall>o'\<in>set out. canonical_op o'" by (intro validated_ops_canonical) auto
  moreover have "out \<noteq> []" using h validate_circuit_Inr by blast
  ultimately show "validate_circuit (PList out) = Inr (out, [])"
    by (simp add: validate_circuit_canonical)
next
  show "validate_circuit (PList [h_entry]) = Inr ([h_entry], [])"
    by (simp add: run_defs h_entry_def)
qed

text \<open>
  The amended C8 at \<open>{"gate":"h","target":0}\<close> and at the shape-correction scenario.
\<close>

theorem canonical_entries_unchanged_witness:
  "[h_entry] \<noteq> [] \<and> canonical_op h_entry
   \<and> validate_circuit (PList [h_entry]) = Inr ([h_entry], [])
   \<and> validate_circuit (PList [x_entry]) = Inr ([x_entry_validated], [0])
   \<and> names_target x_entry
   \<and> validate_circuit (PList [x_entry_validated]) = Inr ([x_entry_validated], [])"
proof -
  have a: "validate_circuit (PList [x_entry]) = Inr ([x_entry_validated], [0])"
    by (simp add: run_defs x_entry_def x_entry_validated_def)
  have b: "names_target x_entry"
    by (simp add: names_target_def x_entry_def has_key_def entry_targets_def)
  have c: "canonical_op h_entry"
    by (simp add: canonical_op_def h_entry_def well_shaped_def well_classified_def
        entry_targets_def entry_controls_def gate_class_def gates_1q_def)
  from canonical_entries_unchanged have
    p1: "[h_entry] \<noteq> [] \<and> (\<forall>e\<in>set [h_entry]. canonical_op e)
          \<longrightarrow> validate_circuit (PList [h_entry]) = Inr ([h_entry], [])" and
    p2: "validate_circuit (PList [x_entry]) = Inr ([x_entry_validated], [0])
          \<and> (\<forall>e\<in>set [x_entry]. names_target e)
          \<longrightarrow> validate_circuit (PList [x_entry_validated]) = Inr ([x_entry_validated], [])"
    by blast+
  from p1 p2 a b c show ?thesis by simp
qed

section \<open>Properties of the job identifier check\<close>

lemma split_on_nonempty: "split_on sep s \<noteq> []"
  by (induction s) (auto split: list.splits)

lemma split_on_no_sep: "sep \<notin> set g \<Longrightarrow> split_on sep g = [g]"
  by (induction g) auto

lemma split_on_append:
  "sep \<notin> set g \<Longrightarrow> split_on sep (g @ sep # rest) = g # split_on sep rest"
  by (induction g) auto

lemma length_split_on: "length (split_on sep s) = Suc (count_list s sep)"
  by (induction s) (auto split: list.splits simp: split_on_nonempty)

lemma join_split_on: "join sep (split_on sep s) = s"
proof (induction s)
  case Nil
  then show ?case by simp
next
  case (Cons x xs)
  obtain g gs where sp: "split_on sep xs = g # gs"
    using split_on_nonempty [of sep xs] by (cases "split_on sep xs") auto
  with Cons show ?case by (cases gs) auto
qed

lemma hex_chars_set: "set hex_chars = set ''0123456789abcdef''"
  by (auto simp: hex_chars_def)

lemma hyphen_not_hex: "CHR ''-'' \<notin> set hex_chars"
  by (simp add: hex_chars_def)

lemma check_groups_ok:
  "check_groups ident ngs = Inr u \<longleftrightarrow>
     (\<forall>(n, val)\<in>set ngs. length val = n \<and> (\<forall>ch\<in>set val. ch \<in> set hex_chars))"
  by (induction ngs) (auto split: if_splits)

lemma check_groups_error:
  "check_groups ident ngs = Inl e \<Longrightarrow> is_error_message e"
  by (induction ngs) (auto split: if_splits)

lemma check_id_error: "check_id t = Inl e \<Longrightarrow> is_error_message e"
  by (auto simp: check_id_def check_groups_error split: if_splits sum.splits)

lemma check_id_Inr: "check_id t = Inr t' \<Longrightarrow> t' = t"
  by (auto simp: check_id_def split: if_splits sum.splits)

lemma length5:
  assumes "length xs = 5"
  obtains a b c d e where "xs = [a, b, c, d, e]"
proof -
  from assms obtain a r1 where 1: "xs = a # r1" "length r1 = 4" by (cases xs) auto
  then obtain b r2 where 2: "r1 = b # r2" "length r2 = 3" by (cases r1) auto
  then obtain c r3 where 3: "r2 = c # r3" "length r3 = 2" by (cases r2) auto
  then obtain d r4 where 4: "r3 = d # r4" "length r4 = 1" by (cases r3) auto
  then obtain e where 5: "r4 = [e]" by (cases r4) auto
  from 1 2 3 4 5 that show ?thesis by simp
qed

lemma check_id_shape:
  assumes "check_id t = Inr t'"
  shows "uid_shape t"
proof -
  from assms have len: "length t = 36" and cnt: "count_list t (CHR ''-'') = 4"
    and grp: "check_groups t (zip hashlen (split_on (CHR ''-'') t)) = Inr ()"
    by (auto simp: check_id_def split: if_splits sum.splits)
  have "length (split_on (CHR ''-'') t) = 5" using cnt by (simp add: length_split_on)
  then obtain a b c d e where sp: "split_on (CHR ''-'') t = [a, b, c, d, e]" by (rule length5)
  from grp have ok: "length a = 8" "length b = 4" "length c = 4" "length d = 4" "length e = 12"
    "\<forall>ch\<in>set (a @ b @ c @ d @ e). ch \<in> set hex_chars"
    unfolding sp hashlen_def check_groups_ok by auto
  have "join (CHR ''-'') (split_on (CHR ''-'') t) = t" by (rule join_split_on)
  then have t: "t = a @ ''-'' @ b @ ''-'' @ c @ ''-'' @ d @ ''-'' @ e" unfolding sp by simp
  show ?thesis unfolding uid_shape_def
    using t ok unfolding hex_chars_set by blast
qed

lemma shape_check_id:
  assumes "uid_shape t"
  shows "check_id t = Inr t"
proof -
  from assms obtain a b c d e where
    t: "t = a @ ''-'' @ b @ ''-'' @ c @ ''-'' @ d @ ''-'' @ e" and
    la: "length a = 8" and lb: "length b = 4" and lc: "length c = 4" and ld: "length d = 4"
    and le: "length e = 12" and
    hex: "\<forall>ch\<in>set (a @ b @ c @ d @ e). ch \<in> set hex_chars"
    unfolding uid_shape_def hex_chars_set by blast
  have no: "CHR ''-'' \<notin> set a" "CHR ''-'' \<notin> set b" "CHR ''-'' \<notin> set c"
    "CHR ''-'' \<notin> set d" "CHR ''-'' \<notin> set e"
    using hex hyphen_not_hex by auto
  have sp: "split_on (CHR ''-'') t = [a, b, c, d, e]"
    unfolding t using no by (simp add: split_on_append split_on_no_sep)
  have len: "length t = 36" unfolding t using la lb lc ld le by simp
  have cnt: "count_list t (CHR ''-'') = 4"
    using length_split_on [of "CHR ''-''" t] unfolding sp by simp
  have grp: "check_groups t (zip hashlen (split_on (CHR ''-'') t)) = Inr ()"
    unfolding sp hashlen_def check_groups_ok using la lb lc ld le hex by simp
  show ?thesis using len cnt grp by (simp add: check_id_def)
qed


lemma uid_shape_length:
  "uid_shape t \<Longrightarrow> length t = 36 \<and> count_list t (CHR ''-'') = 4"
  using shape_check_id [of t] by (auto simp: check_id_def split: if_splits)

text \<open>
  Claim C2 as stated fails: a well-formed identifier followed by a blank has 37 characters
  and is accepted, the result being the stripped identifier and not the argument; and an
  identifier written with the hexadecimal digits \<open>A\<close>-\<open>F\<close> in upper case is rejected.
\<close>

theorem jobid_padded_or_uppercase:
  "validate_jobid_hash (PStr (uid_example @ '' '')) = Inr uid_example
   \<and> length (uid_example @ '' '') = 37
   \<and> validate_jobid_hash (PStr ''0A1B2C3D-4E5F-6789-ABCD-EF0123456789'')
       = Inl (WrongHexChar ''0A1B2C3D-4E5F-6789-ABCD-EF0123456789'' ''0A1B2C3D'')"
  by code_simp

text \<open>
  Claim C2, amended. A string argument is accepted exactly when, stripped of leading and
  trailing whitespace, it consists of five groups of 8, 4, 4, 4 and 12 characters among
  \<open>0\<close>-\<open>9\<close> and \<open>a\<close>-\<open>f\<close>, joined by hyphens (so it has 36 characters and 4 hyphens); the
  result is then the stripped string. Every other string gets an error message, and no
  string makes the check raise.
\<close>

theorem validate_jobid_hash_string:
  "(uid_shape (strip s) \<longrightarrow>
      validate_jobid_hash (PStr s) = Inr (strip s)
      \<and> length (strip s) = 36 \<and> count_list (strip s) (CHR ''-'') = 4)
   \<and> (\<not> uid_shape (strip s) \<longrightarrow>
      (\<exists>e. validate_jobid_hash (PStr s) = Inl e \<and> is_error_message e))"
proof (intro conjI impI)
  assume "uid_shape (strip s)"
  then show "validate_jobid_hash (PStr s) = Inr (strip s)" by (simp add: shape_check_id)
next
  assume "uid_shape (strip s)"
  then show "length (strip s) = 36" by (simp add: uid_shape_length)
next
  assume "uid_shape (strip s)"
  then show "count_list (strip s) (CHR ''-'') = 4" by (simp add: uid_shape_length)
next
  assume no: "\<not> uid_shape (strip s)"
  show "\<exists>e. validate_jobid_hash (PStr s) = Inl e \<and> is_error_message e"
  proof (cases "check_id (strip s)")
    case (Inl e)
    then show ?thesis by (auto simp: check_id_error)
  next
    case (Inr t')
    with no show ?thesis by (auto dest: check_id_shape)
  qed
qed

text \<open>
  The amended C2 at a well-formed identifier and at a malformed one.
\<close>

theorem validate_jobid_hash_string_witness:
  "uid_shape (strip uid_example)
   \<and> validate_jobid_hash (PStr uid_example) = Inr uid_example
   \<and> \<not> uid_shape (strip ''not-a-job-id'')
   \<and> validate_jobid_hash (PStr ''not-a-job-id'') = Inl (NotValid (PStr ''not-a-job-id''))"
proof -
  have s1: "strip uid_example = uid_example" by code_simp
  have "check_id uid_example = Inr uid_example" by code_simp
  then have a: "uid_shape (strip uid_example)" unfolding s1 by (rule check_id_shape)
  have s2: "strip ''not-a-job-id'' = ''not-a-job-id''" by code_simp
  have c2: "check_id ''not-a-job-id'' = Inl (NotValid (PStr ''not-a-job-id''))" by code_simp
  have b: "\<not> uid_shape (strip ''not-a-job-id'')"
    unfolding s2 using c2 shape_check_id [of "''not-a-job-id''"] by auto
  have r: "validate_jobid_hash (PStr ''not-a-job-id'') = Inl (NotValid (PStr ''not-a-job-id''))"
    using s2 c2 by simp
  from validate_jobid_hash_string [of uid_example] a s1
  have "validate_jobid_hash (PStr uid_example) = Inr uid_example" by simp
  moreover from validate_jobid_hash_string [of "''not-a-job-id''"] b r
  have "validate_jobid_hash (PStr ''not-a-job-id'') = Inl (NotValid (PStr ''not-a-job-id''))"
    by simp
  ultimately show ?thesis using a b by simp
qed

section \<open>Properties of job retrieval\<close>

lemma poll_zero:
  "poll srv ident 0 True 0 0 [] =
    (case status_response srv 0 of
       None \<Rightarrow> ([GetStatus ident, PrintWait, Sleep 15], ErrorResponse)
     | Some data \<Rightarrow>
        (if status data = ''completed'' then
           (case results_response srv 0 of
              Some resdata \<Rightarrow>
                (case reconcile (shots_of data) (qubits data) resdata of
                   Inl err \<Rightarrow> ([GetStatus ident, GetResults], Raised err)
                 | Inr res \<Rightarrow> ([GetStatus ident, GetResults], Returned data (Some res)))
            | None \<Rightarrow>
                ([GetStatus ident, GetResults, PrintNoResults, PrintWait, Sleep 15], ErrorResponse))
         else ([GetStatus ident], Returned data None)))"
  by (simp add: poll.simps [of srv ident 0 True 0 0 "[]"] poll.simps [of _ _ "- 1"] waited_def
      split: option.split sum.split)

text \<open>
  Claim C9 as stated fails: with \<open>wait_minutes = 0\<close>, a completed job whose result request
  fails, or a status request that fails, is followed by one sleep of 15 seconds before
  the error is returned.
\<close>

theorem retrieve_job_no_wait_sleeps:
  "retrieve_job srv_no_results (PStr uid_example) 0
     = ([GetStatus uid_example, GetResults, PrintNoResults, PrintWait, Sleep 15], ErrorResponse)
   \<and> retrieve_job srv_down (PStr uid_example) 0
     = ([GetStatus uid_example, PrintWait, Sleep 15], ErrorResponse)
   \<and> sleeps [GetStatus uid_example, PrintWait, Sleep 15] = 1"
proof -
  have v: "validate_jobid_hash (PStr uid_example) = Inr uid_example" by code_simp
  show ?thesis
    by (simp add: retrieve_job_def v poll_zero srv_no_results_def srv_down_def sleeps_def
        del: validate_jobid_hash.simps)
qed

text \<open>
  Claim C9, amended. For a valid job identifier, \<open>retrieve_job\<close> with \<open>wait_minutes = 0\<close>
  makes exactly one status request. It returns right after it, without sleeping, when the
  request succeeds and the job is not completed; for a completed job it makes one result
  request and returns (or raises in the reconciliation) without sleeping when that request
  succeeds. When the status request or the result request fails, it sleeps once for 15
  seconds and then returns an error.
\<close>

theorem retrieve_job_no_wait:
  assumes "validate_jobid_hash jobid = Inr ident"
  shows "status_requests (fst (retrieve_job srv jobid 0)) = 1
    \<and> (\<forall>data. status_response srv 0 = Some data \<and> status data \<noteq> ''completed''
          \<longrightarrow> retrieve_job srv jobid 0 = ([GetStatus ident], Returned data None))
    \<and> (\<forall>data resdata res.
          status_response srv 0 = Some data \<and> status data = ''completed''
          \<and> results_response srv 0 = Some resdata
          \<and> reconcile (shots_of data) (qubits data) resdata = Inr res
          \<longrightarrow> retrieve_job srv jobid 0 = ([GetStatus ident, GetResults], Returned data (Some res)))
    \<and> (\<forall>data resdata err.
          status_response srv 0 = Some data \<and> status data = ''completed''
          \<and> results_response srv 0 = Some resdata
          \<and> reconcile (shots_of data) (qubits data) resdata = Inl err
          \<longrightarrow> retrieve_job srv jobid 0 = ([GetStatus ident, GetResults], Raised err))
    \<and> (status_response srv 0 = None
          \<longrightarrow> retrieve_job srv jobid 0 = ([GetStatus ident, PrintWait, Sleep 15], ErrorResponse))
    \<and> (\<forall>data. status_response srv 0 = Some data \<and> status data = ''completed''
          \<and> results_response srv 0 = None
          \<longrightarrow> retrieve_job srv jobid 0
              = ([GetStatus ident, GetResults, PrintNoResults, PrintWait, Sleep 15], ErrorResponse))"
proof -
  have r: "retrieve_job srv jobid 0 = poll srv ident 0 True 0 0 []"
    using assms by (simp add: retrieve_job_def)
  have one: "status_requests (fst (poll srv ident 0 True 0 0 [])) = 1"
    unfolding poll_zero
    by (simp add: status_requests_def split: option.split sum.split)
  show ?thesis unfolding r using one by (simp add: poll_zero)
qed

text \<open>
  The amended C9 at a running job, at a completed job with the histogram
  \<open>{"0":512,"3":512}\<close>, and at a failing status request.
\<close>

theorem retrieve_job_no_wait_witness:
  "validate_jobid_hash (PStr uid_example) = Inr uid_example
   \<and> status_requests (fst (retrieve_job srv_running (PStr uid_example) 0)) = 1
   \<and> retrieve_job srv_running (PStr uid_example) 0
       = ([GetStatus uid_example],
          Returned \<lparr>status = ''running'', shots = Some 1024, qubits = 2\<rparr> None)
   \<and> retrieve_job srv_done (PStr uid_example) 0
       = ([GetStatus uid_example, GetResults],
          Returned \<lparr>status = ''completed'', shots = Some 1024, qubits = 2\<rparr>
            (Some ([(''00'', 1 / 2), (''11'', 1 / 2)], [(''00'', 512), (''11'', 512)])))
   \<and> retrieve_job srv_down (PStr uid_example) 0
       = ([GetStatus uid_example, PrintWait, Sleep 15], ErrorResponse)"
proof -
  have v: "validate_jobid_hash (PStr uid_example) = Inr uid_example" by code_simp
  have rec: "reconcile (shots_of \<lparr>status = ''completed'', shots = Some 1024, qubits = 2\<rparr>)
               (qubits \<lparr>status = ''completed'', shots = Some 1024, qubits = 2\<rparr>)
               [(0, 512), (3, 512)]
             = Inr ([(''00'', 1 / 2), (''11'', 1 / 2)], [(''00'', 512), (''11'', 512)])"
    by code_simp
  have s1: "status_response srv_running 0
              = Some \<lparr>status = ''running'', shots = Some 1024, qubits = 2\<rparr>"
    by (simp add: srv_running_def)
  have s2: "status_response srv_done 0
              = Some \<lparr>status = ''completed'', shots = Some 1024, qubits = 2\<rparr>"
    "results_response srv_done 0 = Some [(0, 512), (3, 512)]"
    by (simp_all add: srv_done_def)
  have s3: "status_response srv_down 0 = None" by (simp add: srv_down_def)
  from retrieve_job_no_wait [OF v, of srv_running] s1
  have a: "status_requests (fst (retrieve_job srv_running (PStr uid_example) 0)) = 1"
    and b: "retrieve_job srv_running (PStr uid_example) 0
       = ([GetStatus uid_example],
          Returned \<lparr>status = ''running'', shots = Some 1024, qubits = 2\<rparr> None)"
    by (simp_all add: status_requests_def)
  from retrieve_job_no_wait [OF v, of srv_done] s2 rec
  have c: "retrieve_job srv_done (PStr uid_example) 0
       = ([GetStatus uid_example, GetResults],
          Returned \<lparr>status = ''completed'', shots = Some 1024, qubits = 2\<rparr>
            (Some ([(''00'', 1 / 2), (''11'', 1 / 2)], [(''00'', 512), (''11'', 512)])))"
    by simp
  from retrieve_job_no_wait [OF v, of srv_down] s3
  have d: "retrieve_job srv_down (PStr uid_example) 0
       = ([GetStatus uid_example, PrintWait, Sleep 15], ErrorResponse)"
    by simp
  from v a b c d show ?thesis by simp
qed

section \<open>Properties of the result reconciliation\<close>



text \<open>
  Claim C1 requires counts that sum to the shot count for every histogram. For a one-shot
  job whose histogram is \<open>{"0":0.5,"1":0.5}\<close> every truncated count is 0, the search for the
  largest count keeps the empty string as \<open>maxk\<close>, and the correction \<open>cnts[maxk] += 1\<close>
  raises KeyError: \<open>retrieve_job\<close> returns nothing. All numbers involved are exact in
  binary floating point.
\<close>

theorem reconcile_one_shot_raises:
  "reconcile 1 1 [(0, 1 / 2), (1, 1 / 2)] = Inl (KeyError '''')
   \<and> retrieve_job srv_one_shot (PStr uid_example) 0
       = ([GetStatus uid_example, GetResults], Raised (KeyError ''''))"
proof -
  let ?d = "\<lparr>status = ''completed'', shots = Some 1, qubits = 1\<rparr>"
  have v: "validate_jobid_hash (PStr uid_example) = Inr uid_example" by code_simp
  have r: "reconcile 1 1 [(0, 1 / 2), (1, 1 / 2)] = Inl (KeyError '''')" by code_simp
  have r': "reconcile (shots_of ?d) (qubits ?d) [(0, 1 / 2), (1, 1 / 2)] = Inl (KeyError '''')"
    by code_simp
  have s: "status_response srv_one_shot 0 = Some ?d"
    "results_response srv_one_shot 0 = Some [(0, 1 / 2), (1, 1 / 2)]"
    by (simp_all add: srv_one_shot_def)
  have p: "poll srv_one_shot uid_example 0 True 0 0 []
           = ([GetStatus uid_example, GetResults], Raised (KeyError ''''))"
    unfolding poll_zero s using r' by simp
  have "retrieve_job srv_one_shot (PStr uid_example) 0
        = ([GetStatus uid_example, GetResults], Raised (KeyError ''''))"
    unfolding retrieve_job_def v using p by simp
  with r show ?thesis by blast
qed




section \<open>Properties of the emission loop\<close>

lemma emit_loop_append:
  "emit_loop qname (xs @ ys) st =
     (case emit_loop qname xs st of Inl err \<Rightarrow> Inl err | Inr st' \<Rightarrow> emit_loop qname ys st')"
  by (induction xs arbitrary: st) (auto split: sum.splits)

lemma lookup_all_ok:
  "\<forall>k\<in>set ks. has_key qname k \<Longrightarrow> \<exists>qs. lookup_all qname ks = Inr qs"
  by (induction ks) (auto simp: has_key_def)

lemma bind_operands_circ:
  assumes "(\<forall>k\<in>set qval. has_key qname k) \<or> \<not> has_key qname (last qval)"
  shows "\<exists>st1. bind_operands qname qval st = Inr st1 \<and> circ_of st1 = circ_of st"
proof (cases "map_of qname (last qval)")
  case None
  then show ?thesis by (simp add: bind_operands_def)
next
  case (Some q)
  with assms have "\<forall>k\<in>set (butlast qval). has_key qname k"
    by (auto simp: has_key_def dest: in_set_butlastD)
  from lookup_all_ok [OF this] obtain cs where "lookup_all qname (butlast qval) = Inr cs" ..
  with Some show ?thesis by (simp add: bind_operands_def)
qed

lemma emit_multi_unknown:
  "unknown_mnemonic g \<Longrightarrow> emit_multi qname g qval st = Inr st"
  by (simp add: emit_multi_def unknown_mnemonic_def)

lemma emit_step_unknown:
  assumes words: "split_on (CHR '' '') line = g # v1 # rest"
    and unk: "unknown_mnemonic g"
    and ops: "(\<forall>k\<in>set (split_on (CHR '','') v1). has_key qname k)
              \<or> \<not> has_key qname (last (split_on (CHR '','') v1))"
  shows "\<exists>st'. emit_step qname st line = Inr st' \<and> circ_of st' = circ_of st"
proof -
  from bind_operands_circ [OF ops] obtain st1 where
    b: "bind_operands qname (split_on (CHR '','') v1) st = Inr st1" and c: "circ_of st1 = circ_of st"
    by blast
  have "emit_step qname st line = Inr st1"
    using words unk b by (simp add: emit_step_def emit_multi_unknown unknown_mnemonic_def)
  with c show ?thesis by blast
qed

text \<open>
  Claim C5 as stated fails: of the statements \<open>h q[0]\<close>, \<open>foo q[0],q[1]\<close>, \<open>cx q[0],q[1]\<close>
  the emitted circuit holds only the first and the third, and the validator accepts it
  without an error: the unknown \<open>foo\<close> has left no trace.
\<close>

theorem unknown_mnemonic_dropped:
  "unknown_mnemonic ''foo''
   \<and> emit_circuit q2 prog_foo
       = Inr [PDict [(''gate'', PStr ''h''), (''target'', PInt 0)],
              PDict [(''gate'', PStr ''x''), (''targets'', PList [PInt 1]),
                     (''controls'', PList [PInt 0])]]
   \<and> validate_circuit
        (PList [PDict [(''gate'', PStr ''h''), (''target'', PInt 0)],
                PDict [(''gate'', PStr ''x''), (''targets'', PList [PInt 1]),
                       (''controls'', PList [PInt 0])]])
       = Inr ([PDict [(''gate'', PStr ''h''), (''target'', PInt 0)],
               PDict [(''gate'', PStr ''x''), (''targets'', PList [PInt 1]),
                      (''controls'', PList [PInt 0])]], [])"
  by code_simp

text \<open>
  Claim C5, amended. A statement with an operand field whose mnemonic is in none of the
  four translation tables, and whose operands are all register names (or whose last
  operand is not one), does not make the translation fail and adds no operation to the
  emitted circuit: after it the circuit is what it was before.
\<close>

theorem unknown_mnemonic_emits_nothing:
  assumes "split_on (CHR '' '') line = g # v1 # rest"
    and "unknown_mnemonic g"
    and "(\<forall>k\<in>set (split_on (CHR '','') v1). has_key qname k)
         \<or> \<not> has_key qname (last (split_on (CHR '','') v1))"
    and "emit_loop qname pre st = Inr st1"
  shows "\<exists>st2. emit_loop qname (pre @ [line]) st = Inr st2 \<and> circ_of st2 = circ_of st1"
proof -
  from emit_step_unknown [OF assms(1,2,3)] obtain st2 where
    "emit_step qname st1 line = Inr st2" "circ_of st2 = circ_of st1" by blast
  with assms(4) show ?thesis by (simp add: emit_loop_append)
qed

text \<open>
  The amended C5 at the statement \<open>foo q[0],q[1]\<close> following \<open>h q[0]\<close>.
\<close>

theorem unknown_mnemonic_emits_nothing_witness:
  "split_on (CHR '' '') ''foo q[0],q[1]'' = [''foo'', ''q[0],q[1]'']
   \<and> unknown_mnemonic ''foo''
   \<and> has_key q2 ''q[0]'' \<and> has_key q2 ''q[1]''
   \<and> emit_loop q2 [''h q[0]''] \<lparr>circ_of = [], qtgt_of = None, qctl_of = None, shared_of = []\<rparr>
       = Inr \<lparr>circ_of = [PDict [(''gate'', PStr ''h''), (''target'', PInt 0)]],
              qtgt_of = None, qctl_of = None, shared_of = []\<rparr>
   \<and> (\<exists>st2. emit_loop q2 [''h q[0]'', ''foo q[0],q[1]'']
               \<lparr>circ_of = [], qtgt_of = None, qctl_of = None, shared_of = []\<rparr> = Inr st2
            \<and> circ_of st2 = [PDict [(''gate'', PStr ''h''), (''target'', PInt 0)]])"
proof -
  let ?st0 = "\<lparr>circ_of = [], qtgt_of = None, qctl_of = None, shared_of = []\<rparr>"
  let ?st1 = "\<lparr>circ_of = [PDict [(''gate'', PStr ''h''), (''target'', PInt 0)]],
              qtgt_of = None, qctl_of = None, shared_of = []\<rparr>"
  have a: "split_on (CHR '' '') ''foo q[0],q[1]'' = ''foo'' # ''q[0],q[1]'' # []" by code_simp
  have b: "unknown_mnemonic ''foo''" by code_simp
  have k: "has_key q2 ''q[0]''" "has_key q2 ''q[1]''" by code_simp+
  have sp: "split_on (CHR '','') ''q[0],q[1]'' = [''q[0]'', ''q[1]'']" by code_simp
  have c: "(\<forall>k\<in>set (split_on (CHR '','') ''q[0],q[1]''). has_key q2 k)
           \<or> \<not> has_key q2 (last (split_on (CHR '','') ''q[0],q[1]''))"
    unfolding sp using k by simp
  have d: "emit_loop q2 [''h q[0]''] ?st0 = Inr ?st1" by code_simp
  from unknown_mnemonic_emits_nothing [OF a b c d] a b k d show ?thesis by simp
qed

end
